theory Spec2Isabelle
  imports Main "HOL-Library.Word"
begin

section \<open>Attribute request correlation (Attribute\_Request.h)\<close>

text \<open>
  A shallow embedding of the class \<open>Attribute_Request\<close> of
  \<^verbatim>\<open>src/ThingsBoard/src/Attribute_Request.h\<close>. The member functions become functions
  on an explicit engine state; every call of a host capability (subscribe, unsubscribe,
  send, handler) is recorded, in order, in a list of events that the function returns
  together with the new state. The results the host capabilities give back are inputs.
  \<open>size_t\<close> is a word of any width \<open>'w\<close>. Output of the \<open>Logger\<close> is diagnostic only
  and is not part of the recorded events. A handler is opaque: calling it is an event and
  it does not call back into the engine.
\<close>

subsection \<open>Topics and keys\<close>

definition ATTRIBUTE_REQUEST_TOPIC :: string where
  "ATTRIBUTE_REQUEST_TOPIC = ''v1/devices/me/attributes/request/''"

definition ATTRIBUTE_RESPONSE_SUBSCRIBE_TOPIC :: string where
  "ATTRIBUTE_RESPONSE_SUBSCRIBE_TOPIC = ''v1/devices/me/attributes/response/+''"

definition ATTRIBUTE_RESPONSE_TOPIC :: string where
  "ATTRIBUTE_RESPONSE_TOPIC = ''v1/devices/me/attributes/response/''"

definition CLIENT_REQUEST_KEYS :: string where
  "CLIENT_REQUEST_KEYS = ''clientKeys''"

definition CLIENT_RESPONSE_KEY :: string where
  "CLIENT_RESPONSE_KEY = ''client''"

definition SHARED_REQUEST_KEY :: string where
  "SHARED_REQUEST_KEY = ''sharedKeys''"

text \<open>
  Modelled from the spec: \<open>SHARED_RESPONSE_KEY\<close> is used by \<open>Shared_Attributes_Request\<close>
  and declared outside \<^verbatim>\<open>Attribute_Request.h\<close>; the spec gives the response field of a
  shared request as \<open>shared\<close>.
\<close>

definition SHARED_RESPONSE_KEY :: string where
  "SHARED_RESPONSE_KEY = ''shared''"

subsection \<open>Structured documents\<close>

text \<open>
  The documents of the JSON library the code uses. A \<open>JsonObjectConst\<close> is a possibly
  unbound view of an object: \<open>None\<close> is the unbound view that a conversion gives when the
  value is not an object.
\<close>

datatype json =
    JNull
  | JBool bool
  | JInt int
  | JString string
  | JArray "json list"
  | JObject "(string \<times> json) list"

type_synonym JsonObjectConst = "(string \<times> json) list option"

definition as_JsonObjectConst :: "json \<Rightarrow> JsonObjectConst" where
  "as_JsonObjectConst v = (case v of JObject kvs \<Rightarrow> Some kvs | _ \<Rightarrow> None)"

definition containsKey :: "JsonObjectConst \<Rightarrow> string \<Rightarrow> bool" where
  "containsKey obj k = (case obj of None \<Rightarrow> False | Some kvs \<Rightarrow> map_of kvs k \<noteq> None)"

text \<open>\<open>object[key]\<close> assigned to a \<open>JsonObjectConst\<close>: the member, converted to an object view.\<close>

definition getMember :: "JsonObjectConst \<Rightarrow> string \<Rightarrow> JsonObjectConst" where
  "getMember obj k =
     (case obj of
        None \<Rightarrow> None
      | Some kvs \<Rightarrow> (case map_of kvs k of None \<Rightarrow> None | Some v \<Rightarrow> as_JsonObjectConst v))"

subsection \<open>The pending request record\<close>

text \<open>
  Modelled from the spec: the class \<open>Attribute_Request_Callback\<close> is declared in
  \<^verbatim>\<open>Attribute_Request_Callback.h\<close>, which is not part of the sources. The record has the
  fields of the spec's Pending Request Record: the requested keys (C strings, \<open>None\<close> a
  null pointer), the response key (\<open>None\<close> a null pointer), the request id, the handler
  (a tag that stands for the function), and the timeout tracker (threshold, accumulated
  elapsed time, and whether it is armed). The type of the request id is a parameter of
  the record; the engine uses it at \<open>size_t\<close>, a word.
\<close>

record 'i Attribute_Request_Callback =
  m_attributes :: "string option list"
  m_attribute_key :: "string option"
  m_request_id :: 'i
  m_callback :: nat
  m_timeout :: nat
  m_elapsed :: nat
  m_timer_armed :: bool

datatype event =
    Subscribe_Topic string
  | Unsubscribe_Topic string
  | Send_Json string json
  | Callback_Called nat JsonObjectConst
  | Timeout_Called nat

definition Get_Attributes :: "'w word Attribute_Request_Callback \<Rightarrow> string option list" where
  "Get_Attributes c = m_attributes c"

definition Get_Request_ID :: "'w word Attribute_Request_Callback \<Rightarrow> 'w word" where
  "Get_Request_ID c = m_request_id c"

definition Set_Request_ID ::
  "'w word \<Rightarrow> 'w word Attribute_Request_Callback \<Rightarrow> 'w word Attribute_Request_Callback" where
  "Set_Request_ID i c = c\<lparr>m_request_id := i\<rparr>"

definition Get_Attribute_Key :: "'w word Attribute_Request_Callback \<Rightarrow> string option" where
  "Get_Attribute_Key c = m_attribute_key c"

definition Set_Attribute_Key ::
  "string option \<Rightarrow> 'w word Attribute_Request_Callback \<Rightarrow> 'w word Attribute_Request_Callback" where
  "Set_Attribute_Key k c = c\<lparr>m_attribute_key := k\<rparr>"

definition Call_Callback :: "'w word Attribute_Request_Callback \<Rightarrow> JsonObjectConst \<Rightarrow> event list" where
  "Call_Callback c obj = [Callback_Called (m_callback c) obj]"

text \<open>
  Modelled from the spec: the timeout tracker of a record (section 4.3). It is started
  when the request is issued, stopped when the response is handled, and advanced once
  per tick by the time elapsed since the previous tick; when the accumulated time exceeds
  the threshold the record has expired and its handler is invoked with the timeout
  outcome, once.
\<close>

definition Start_Timeout_Timer :: "'w word Attribute_Request_Callback \<Rightarrow> 'w word Attribute_Request_Callback" where
  "Start_Timeout_Timer c = c\<lparr>m_elapsed := 0, m_timer_armed := True\<rparr>"

definition Stop_Timeout_Timer :: "'w word Attribute_Request_Callback \<Rightarrow> 'w word Attribute_Request_Callback" where
  "Stop_Timeout_Timer c = c\<lparr>m_timer_armed := False\<rparr>"

definition Update_Timeout_Timer ::
  "nat \<Rightarrow> 'w word Attribute_Request_Callback \<Rightarrow> 'w word Attribute_Request_Callback \<times> event list" where
  "Update_Timeout_Timer dt c =
     (if \<not> m_timer_armed c then (c, [])
      else if m_elapsed c + dt > m_timeout c
        then (c\<lparr>m_elapsed := m_elapsed c + dt, m_timer_armed := False\<rparr>, [Timeout_Called (m_callback c)])
      else (c\<lparr>m_elapsed := m_elapsed c + dt\<rparr>, []))"

subsection \<open>Helpers\<close>

text \<open>
  Modelled from the spec: the functions of \<open>Helper\<close> are declared outside the sources.
  \<open>stringIsNullorEmpty\<close> is true of a null pointer and of the empty string;
  \<open>remove\<close> erases the element an iterator points to; \<open>parseRequestId\<close> reads the
  numeric suffix that follows the fixed topic prefix.
\<close>

definition stringIsNullorEmpty :: "string option \<Rightarrow> bool" where
  "stringIsNullorEmpty s = (case s of None \<Rightarrow> True | Some t \<Rightarrow> t = [])"

definition Helper_remove :: "'a list \<Rightarrow> nat \<Rightarrow> 'a list" where
  "Helper_remove xs i = take i xs @ drop (Suc i) xs"

definition digit_value :: "char \<Rightarrow> nat option" where
  "digit_value c =
     (let n = of_char c :: nat
      in if of_char CHR ''0'' \<le> n \<and> n \<le> of_char CHR ''9'' then Some (n - of_char CHR ''0'') else None)"

fun parse_digits :: "nat \<Rightarrow> string \<Rightarrow> nat" where
  "parse_digits acc [] = acc"
| "parse_digits acc (c # cs) =
     (case digit_value c of None \<Rightarrow> acc | Some d \<Rightarrow> parse_digits (10 * acc + d) cs)"

definition parseRequestId :: "string \<Rightarrow> string \<Rightarrow> 'w::len word" where
  "parseRequestId base_topic received_topic =
     of_nat (parse_digits 0 (drop (length base_topic) received_topic))"

text \<open>
  The decimal digits that \<open>snprintf\<close> prints for \<open>%u\<close>, for a \<open>size_t\<close> no
  wider than \<open>unsigned\<close>.
\<close>

fun decimal :: "nat \<Rightarrow> string" where
  "decimal n =
     (if n < 10 then [char_of (of_char CHR ''0'' + n)]
      else decimal (n div 10) @ [char_of (of_char CHR ''0'' + n mod 10)])"

declare decimal.simps [simp del]

subsection \<open>The request buffer\<close>

text \<open>
  The character array \<open>request\<close> of \<open>Attributes_Request\<close>: its declared length, the
  characters it holds before the first null character (it starts zeroed), and the
  indices that have been written, in order. \<open>strncat\<close> appends at most \<open>n\<close> characters
  of the source after the characters already there and then always writes a terminating
  null character. The sizes are natural numbers: the keys are strings in memory, so the
  sum of their lengths does not overflow \<open>size_t\<close>, and the second pass never
  subtracts more than the first pass added.
\<close>

record char_buffer =
  declared_length :: nat
  chars :: string
  written :: "nat list"

definition new_buffer :: "nat \<Rightarrow> char_buffer" where
  "new_buffer n = \<lparr>declared_length = n, chars = [], written = []\<rparr>"

definition strncat :: "char_buffer \<Rightarrow> string \<Rightarrow> nat \<Rightarrow> char_buffer" where
  "strncat dest src n =
     (let k = min n (length src); start = length (chars dest)
      in dest\<lparr>chars := chars dest @ take k src,
              written := written dest @ [start ..< start + k] @ [start + k]\<rparr>)"

definition in_bounds :: "char_buffer \<Rightarrow> bool" where
  "in_bounds b = list_all (\<lambda>i. i < declared_length b) (written b)"

text \<open>The first loop of \<open>Attributes_Request\<close>: the size of the buffer.\<close>

fun request_size :: "string option list \<Rightarrow> nat \<Rightarrow> nat" where
  "request_size [] sz = sz"
| "request_size (att # atts) sz =
     (if stringIsNullorEmpty att then request_size atts sz
      else request_size atts (sz + length (the att) + length '',''))"

text \<open>The second loop: the keys are concatenated, \<open>sz\<close> counting down what is left.\<close>

fun request_fill :: "string option list \<Rightarrow> char_buffer \<Rightarrow> nat \<Rightarrow> char_buffer" where
  "request_fill [] request sz = request"
| "request_fill (att # atts) request sz =
     (if stringIsNullorEmpty att then request_fill atts request sz
      else
        let request1 = strncat request (the att) sz;
            sz1 = sz - length (the att);
            request2 = strncat request1 '','' sz1;
            sz2 = sz1 - length '',''
        in request_fill atts request2 sz2)"

definition request_buffer_of :: "string option list \<Rightarrow> char_buffer" where
  "request_buffer_of attributes =
     (let sz = request_size attributes 0
      in request_fill attributes (new_buffer sz) sz)"

subsection \<open>The engine\<close>

text \<open>
  The state: the container \<open>m_attribute_request_callbacks\<close> and the request id counter
  owned by the host, which \<open>m_get_request_id_callback\<close> gives a pointer to. The
  configuration: \<open>THINGSBOARD_ENABLE_DYNAMIC\<close> and the template parameter
  \<open>MaxSubscriptions\<close>, the capacity of the array in bounded mode. The host: what the host
  capabilities return during one call of \<open>Attributes_Request\<close>, and what the memory
  holds where that call reads outside an array.
\<close>

record 'i engine =
  m_attribute_request_callbacks :: "'i Attribute_Request_Callback list"
  request_id_counter :: 'i

record config =
  ENABLE_DYNAMIC :: bool
  MaxSubscriptions :: nat

record host =
  subscribe_topic_result :: bool
  request_id_is_null :: bool
  send_json_result :: bool
  bytes_at_empty_request :: string

text \<open>
  The C string that the document is given, \<open>static_cast<const char*>(request)\<close>. When
  no requested key is usable the array is declared with length 0 and the second pass
  writes nothing, not even a terminating null character: the string that is read starts
  in the memory behind the array, and the characters found there before the first null
  character are an input, \<open>bytes_at_empty_request\<close>. Otherwise it is the text of the
  buffer up to the terminating null character that the last \<open>strncat\<close> wrote.
\<close>

definition request_value :: "host \<Rightarrow> char_buffer \<Rightarrow> string" where
  "request_value h request =
     (if declared_length request = 0 then bytes_at_empty_request h else chars request)"

text \<open>
  \<open>Attributes_Request_Subscribe\<close>: the capacity check exists in bounded mode only; the
  second component of the result is \<open>registered_callback\<close>.
\<close>

definition Attributes_Request_Subscribe ::
  "config \<Rightarrow> host \<Rightarrow> 'w word Attribute_Request_Callback \<Rightarrow> 'w word engine
     \<Rightarrow> bool \<times> nat option \<times> 'w word engine \<times> event list" where
  "Attributes_Request_Subscribe cfg h callback e =
     (if \<not> ENABLE_DYNAMIC cfg \<and>
         length (m_attribute_request_callbacks e) + 1 > MaxSubscriptions cfg
      then (False, None, e, [])
      else if \<not> subscribe_topic_result h
      then (False, None, e, [Subscribe_Topic ATTRIBUTE_RESPONSE_SUBSCRIBE_TOPIC])
      else (True, Some (length (m_attribute_request_callbacks e)),
            e\<lparr>m_attribute_request_callbacks := m_attribute_request_callbacks e @ [callback]\<rparr>,
            [Subscribe_Topic ATTRIBUTE_RESPONSE_SUBSCRIBE_TOPIC]))"

definition Attributes_Request_Unsubscribe ::
  "bool \<Rightarrow> 'w word engine \<Rightarrow> bool \<times> 'w word engine \<times> event list" where
  "Attributes_Request_Unsubscribe unsubscribe_result e =
     (unsubscribe_result, e\<lparr>m_attribute_request_callbacks := []\<rparr>,
      [Unsubscribe_Topic ATTRIBUTE_RESPONSE_SUBSCRIBE_TOPIC])"

text \<open>
  \<open>Attributes_Request\<close>. The pointer \<open>registered_callback\<close> to the record just stored
  is its index in the container. The value put into the document is \<open>request_value\<close>.
  The results are: what the function returns, the engine afterwards, and the calls made.
\<close>

definition Attributes_Request ::
  "config \<Rightarrow> host \<Rightarrow> 'w::len word Attribute_Request_Callback \<Rightarrow> string option \<Rightarrow> string option
     \<Rightarrow> 'w word engine \<Rightarrow> bool \<times> 'w word engine \<times> event list" where
  "Attributes_Request cfg h callback attribute_request_key attribute_response_key e =
     (let attributes = Get_Attributes callback in
      if attributes = [] then (False, e, [])
      else if attribute_request_key = None \<or> attribute_response_key = None then (False, e, [])
      else
        (case Attributes_Request_Subscribe cfg h callback e of
           (False, _, e1, evs1) \<Rightarrow> (False, e1, evs1)
         | (True, None, e1, evs1) \<Rightarrow> (False, e1, evs1)
         | (True, Some registered_callback, e1, evs1) \<Rightarrow>
             let request = request_buffer_of attributes;
                 request_buffer =
                   JObject [(the attribute_request_key, JString (request_value h request))]
             in if request_id_is_null h then (False, e1, evs1)
                else
                  let request_id = request_id_counter e1 + 1;
                      cbs = m_attribute_request_callbacks e1;
                      e2 = e1\<lparr>request_id_counter := request_id,
                              m_attribute_request_callbacks :=
                                cbs[registered_callback :=
                                  Start_Timeout_Timer
                                    (Set_Attribute_Key attribute_response_key
                                      (Set_Request_ID request_id (cbs ! registered_callback)))]\<rparr>;
                      topic = ATTRIBUTE_REQUEST_TOPIC @ decimal (unat request_id)
                  in (send_json_result h, e2, evs1 @ [Send_Json topic request_buffer])))"

definition Client_Attributes_Request ::
  "config \<Rightarrow> host \<Rightarrow> 'w::len word Attribute_Request_Callback \<Rightarrow> 'w word engine
     \<Rightarrow> bool \<times> 'w word engine \<times> event list" where
  "Client_Attributes_Request cfg h callback e =
     Attributes_Request cfg h callback (Some CLIENT_REQUEST_KEYS) (Some CLIENT_RESPONSE_KEY) e"

definition Shared_Attributes_Request ::
  "config \<Rightarrow> host \<Rightarrow> 'w::len word Attribute_Request_Callback \<Rightarrow> 'w word engine
     \<Rightarrow> bool \<times> 'w word engine \<times> event list" where
  "Shared_Attributes_Request cfg h callback e =
     Attributes_Request cfg h callback (Some SHARED_REQUEST_KEY) (Some SHARED_RESPONSE_KEY) e"

text \<open>\<open>std::find_if\<close>, or the loop that stops at the first match: the index found.\<close>

fun find_if :: "('a \<Rightarrow> bool) \<Rightarrow> 'a list \<Rightarrow> nat option" where
  "find_if p [] = None"
| "find_if p (x # xs) =
     (if p x then Some 0 else (case find_if p xs of None \<Rightarrow> None | Some i \<Rightarrow> Some (Suc i)))"

text \<open>
  The end of \<open>Process_Json_Response\<close>: unsubscribe when no record is pending. The result
  of the unsubscription is discarded there, so it is not an input.
\<close>

definition unsubscribe_if_empty :: "'w word engine \<Rightarrow> 'w word engine \<times> event list" where
  "unsubscribe_if_empty e =
     (if m_attribute_request_callbacks e = []
      then (case Attributes_Request_Unsubscribe True e of (_, e1, evs) \<Rightarrow> (e1, evs))
      else (e, []))"

definition Process_Json_Response ::
  "string \<Rightarrow> json \<Rightarrow> 'w::len word engine \<Rightarrow> 'w word engine \<times> event list" where
  "Process_Json_Response topic data e =
     (let request_id = parseRequestId ATTRIBUTE_RESPONSE_TOPIC topic;
          object = as_JsonObjectConst data;
          cbs = m_attribute_request_callbacks e
      in case find_if (\<lambda>attribute_request. Get_Request_ID attribute_request = request_id) cbs of
           None \<Rightarrow> unsubscribe_if_empty e
         | Some it \<Rightarrow>
             let attribute_request = cbs ! it;
                 evs =
                   (case Get_Attribute_Key attribute_request of
                      None \<Rightarrow> []
                    | Some attribute_response_key \<Rightarrow>
                        let object1 =
                              (if containsKey object attribute_response_key
                               then getMember object attribute_response_key else object);
                            attribute_request1 = Stop_Timeout_Timer attribute_request
                        in Call_Callback attribute_request1 object1);
                 e1 = e\<lparr>m_attribute_request_callbacks := Helper_remove cbs it\<rparr>;
                 (e2, evs2) = unsubscribe_if_empty e1
             in (e2, evs @ evs2))"

definition Compare_Response_Topic :: "string \<Rightarrow> bool" where
  "Compare_Response_Topic topic =
     (take (length ATTRIBUTE_RESPONSE_TOPIC) topic = ATTRIBUTE_RESPONSE_TOPIC)"

definition Unsubscribe :: "bool \<Rightarrow> 'w word engine \<Rightarrow> bool \<times> 'w word engine \<times> event list" where
  "Unsubscribe unsubscribe_result e = Attributes_Request_Unsubscribe unsubscribe_result e"

definition Resubscribe_Topic :: "bool \<Rightarrow> 'w word engine \<Rightarrow> bool \<times> 'w word engine \<times> event list" where
  "Resubscribe_Topic unsubscribe_result e = Unsubscribe unsubscribe_result e"

text \<open>
  \<open>loop\<close>, the tick of the scheduler (the class has it when the timers are polled, that
  is without \<open>THINGSBOARD_USE_ESP_TIMER\<close>): the timeout tracker of every record is
  advanced, in the order of the container. \<open>loop_with\<close> is the loop for any behaviour
  \<open>upd\<close> of \<open>Update_Timeout_Timer\<close>, a member function of the record that gets the
  record alone; \<open>loop\<close> is the loop for the tracker modelled above, with the time \<open>dt\<close>
  elapsed since the previous tick.
\<close>

fun update_all :: "('c \<Rightarrow> 'c \<times> event list) \<Rightarrow> 'c list \<Rightarrow> 'c list \<times> event list" where
  "update_all upd [] = ([], [])"
| "update_all upd (c # cs) =
     (case upd c of
        (c1, evs1) \<Rightarrow> (case update_all upd cs of (cs1, evs2) \<Rightarrow> (c1 # cs1, evs1 @ evs2)))"

definition loop_with ::
  "('w word Attribute_Request_Callback \<Rightarrow> 'w word Attribute_Request_Callback \<times> event list)
     \<Rightarrow> 'w word engine \<Rightarrow> 'w word engine \<times> event list" where
  "loop_with upd e =
     (case update_all upd (m_attribute_request_callbacks e) of
        (cs, evs) \<Rightarrow> (e\<lparr>m_attribute_request_callbacks := cs\<rparr>, evs))"

definition loop :: "nat \<Rightarrow> 'w word engine \<Rightarrow> 'w word engine \<times> event list" where
  "loop dt e = loop_with (Update_Timeout_Timer dt) e"

subsection \<open>Observations on the recorded events\<close>

fun is_send :: "event \<Rightarrow> bool" where
  "is_send (Send_Json _ _) = True"
| "is_send _ = False"

fun is_subscribe :: "event \<Rightarrow> bool" where
  "is_subscribe (Subscribe_Topic _) = True"
| "is_subscribe _ = False"

fun is_unsubscribe :: "event \<Rightarrow> bool" where
  "is_unsubscribe (Unsubscribe_Topic _) = True"
| "is_unsubscribe _ = False"

fun is_callback :: "event \<Rightarrow> bool" where
  "is_callback (Callback_Called _ _) = True"
| "is_callback _ = False"

fun is_timeout :: "event \<Rightarrow> bool" where
  "is_timeout (Timeout_Called _) = True"
| "is_timeout _ = False"

text \<open>A record with its timeout tracker reset: what a record is apart from its timer.\<close>

definition without_timer :: "'i Attribute_Request_Callback \<Rightarrow> 'i Attribute_Request_Callback" where
  "without_timer c = c\<lparr>m_elapsed := 0, m_timer_armed := False\<rparr>"

subsection \<open>Sample inputs\<close>

text \<open>
  Concrete inputs on a 32-bit \<open>size_t\<close>: callbacks as a caller constructs them (no
  response key, request id 0, timer not started), an engine with nothing pending and the
  counter at 0, and the results of a host whose capabilities all succeed or of one where
  a single capability fails.
\<close>

definition callback_ab :: "32 word Attribute_Request_Callback" where
  "callback_ab =
     \<lparr>m_attributes = [Some ''a'', Some ''b''], m_attribute_key = None, m_request_id = 0,
      m_callback = 7, m_timeout = 1000, m_elapsed = 0, m_timer_armed = False\<rparr>"

definition callback_c :: "32 word Attribute_Request_Callback" where
  "callback_c =
     \<lparr>m_attributes = [Some ''c''], m_attribute_key = None, m_request_id = 0,
      m_callback = 8, m_timeout = 1000, m_elapsed = 0, m_timer_armed = False\<rparr>"

definition callback_no_keys :: "32 word Attribute_Request_Callback" where
  "callback_no_keys =
     \<lparr>m_attributes = [], m_attribute_key = None, m_request_id = 0,
      m_callback = 9, m_timeout = 1000, m_elapsed = 0, m_timer_armed = False\<rparr>"

definition callback_null_key :: "32 word Attribute_Request_Callback" where
  "callback_null_key =
     \<lparr>m_attributes = [None, Some ''a''], m_attribute_key = None, m_request_id = 0,
      m_callback = 10, m_timeout = 1000, m_elapsed = 0, m_timer_armed = False\<rparr>"

definition engine_empty :: "32 word engine" where
  "engine_empty = \<lparr>m_attribute_request_callbacks = [], request_id_counter = 0\<rparr>"

text \<open>The engine after \<open>callback_ab\<close> has been requested as client attributes.\<close>

definition engine_pending_ab :: "32 word engine" where
  "engine_pending_ab =
     \<lparr>m_attribute_request_callbacks =
        [\<lparr>m_attributes = [Some ''a'', Some ''b''], m_attribute_key = Some ''client'',
          m_request_id = 1, m_callback = 7, m_timeout = 1000, m_elapsed = 0,
          m_timer_armed = True\<rparr>],
      request_id_counter = 1\<rparr>"

text \<open>
  The engine after \<open>callback_c\<close> has then been requested as shared attributes: two
  records are pending.
\<close>

definition engine_pending_two :: "32 word engine" where
  "engine_pending_two =
     \<lparr>m_attribute_request_callbacks =
        [\<lparr>m_attributes = [Some ''a'', Some ''b''], m_attribute_key = Some ''client'',
          m_request_id = 1, m_callback = 7, m_timeout = 1000, m_elapsed = 0,
          m_timer_armed = True\<rparr>,
         \<lparr>m_attributes = [Some ''c''], m_attribute_key = Some ''shared'',
          m_request_id = 2, m_callback = 8, m_timeout = 1000, m_elapsed = 0,
          m_timer_armed = True\<rparr>],
      request_id_counter = 2\<rparr>"

definition config_dynamic :: config where
  "config_dynamic = \<lparr>ENABLE_DYNAMIC = True, MaxSubscriptions = 0\<rparr>"

definition config_bounded :: "nat \<Rightarrow> config" where
  "config_bounded n = \<lparr>ENABLE_DYNAMIC = False, MaxSubscriptions = n\<rparr>"

definition host_ok :: host where
  "host_ok = \<lparr>subscribe_topic_result = True, request_id_is_null = False, send_json_result = True,
      bytes_at_empty_request = ''garbage''\<rparr>"

definition host_subscribe_fails :: host where
  "host_subscribe_fails =
     \<lparr>subscribe_topic_result = False, request_id_is_null = False, send_json_result = True,
      bytes_at_empty_request = ''garbage''\<rparr>"

definition host_null_request_id :: host where
  "host_null_request_id =
     \<lparr>subscribe_topic_result = True, request_id_is_null = True, send_json_result = True,
      bytes_at_empty_request = ''garbage''\<rparr>"

subsection \<open>The joined value, in the words of the spec\<close>

text \<open>
  The value the spec asks for: every requested key that is neither null nor empty, whole
  and in order, each followed by the delimiter. The buffer that the code fills is
  compared with it.
\<close>

definition comma_joined :: "string option list \<Rightarrow> string" where
  "comma_joined attributes =
     concat (map (\<lambda>att. the att @ '','')
       (filter (\<lambda>att. \<not> stringIsNullorEmpty att) attributes))"

subsection \<open>Sequences of operations\<close>

text \<open>
  The single driving loop of the host: requests, responses routed by the dispatcher,
  ticks of the scheduler and the global unsubscription, one after the other, each run to
  completion on the engine that the previous one left.
\<close>

datatype 'i operation =
    Request_Client host "'i Attribute_Request_Callback"
  | Request_Shared host "'i Attribute_Request_Callback"
  | Response string json
  | Tick nat
  | Unsubscribe_All bool

fun step :: "config \<Rightarrow> 'w::len word operation \<Rightarrow> 'w word engine \<Rightarrow> 'w word engine" where
  "step cfg (Request_Client h c) e = fst (snd (Client_Attributes_Request cfg h c e))"
| "step cfg (Request_Shared h c) e = fst (snd (Shared_Attributes_Request cfg h c e))"
| "step cfg (Response topic data) e = fst (Process_Json_Response topic data e)"
| "step cfg (Tick dt) e = fst (loop dt e)"
| "step cfg (Unsubscribe_All r) e = fst (snd (Unsubscribe r e))"

fun run :: "config \<Rightarrow> 'w::len word operation list \<Rightarrow> 'w word engine \<Rightarrow> 'w word engine" where
  "run cfg [] e = e"
| "run cfg (operation # operations) e = run cfg operations (step cfg operation e)"

fun request_id_available :: "'i operation \<Rightarrow> bool" where
  "request_id_available (Request_Client h c) = (\<not> request_id_is_null h)"
| "request_id_available (Request_Shared h c) = (\<not> request_id_is_null h)"
| "request_id_available _ = True"

text \<open>
  The invariant behind the uniqueness of the request ids: the pending ids are pairwise
  different and none is above the counter.
\<close>

definition ids_in_order :: "'w::len word engine \<Rightarrow> bool" where
  "ids_in_order e \<longleftrightarrow>
     distinct (map m_request_id (m_attribute_request_callbacks e)) \<and>
     list_all (\<lambda>c. unat (m_request_id c) \<le> unat (request_id_counter e))
       (m_attribute_request_callbacks e)"

text \<open>
  What the uniqueness of the request ids depends on, step by step. A request reaches
  the get-request-id capability when its key list is not empty, the store has room and
  the subscription succeeds; the host then returns a null pointer or not. The counter
  overflows in a step when it is at its maximum before the step and at 0 after it. A
  run is orderly when no step has a null pointer returned and no step overflows the
  counter.
\<close>

definition reaches_request_id ::
  "config \<Rightarrow> host \<Rightarrow> 'w::len word Attribute_Request_Callback \<Rightarrow> 'w word engine \<Rightarrow> bool" where
  "reaches_request_id cfg h callback e \<longleftrightarrow>
     Get_Attributes callback \<noteq> [] \<and>
     (ENABLE_DYNAMIC cfg \<or> length (m_attribute_request_callbacks e) < MaxSubscriptions cfg) \<and>
     subscribe_topic_result h"

fun null_pointer_returned ::
  "config \<Rightarrow> 'w::len word operation \<Rightarrow> 'w word engine \<Rightarrow> bool" where
  "null_pointer_returned cfg (Request_Client h c) e =
     (reaches_request_id cfg h c e \<and> request_id_is_null h)"
| "null_pointer_returned cfg (Request_Shared h c) e =
     (reaches_request_id cfg h c e \<and> request_id_is_null h)"
| "null_pointer_returned cfg _ e = False"

definition counter_overflows ::
  "config \<Rightarrow> 'w::len word operation \<Rightarrow> 'w word engine \<Rightarrow> bool" where
  "counter_overflows cfg operation e \<longleftrightarrow>
     request_id_counter e = - 1 \<and> request_id_counter (step cfg operation e) = 0"

fun orderly :: "config \<Rightarrow> 'w::len word operation list \<Rightarrow> 'w word engine \<Rightarrow> bool" where
  "orderly cfg [] e = True"
| "orderly cfg (operation # operations) e =
     (\<not> null_pointer_returned cfg operation e \<and> \<not> counter_overflows cfg operation e \<and>
      orderly cfg operations (step cfg operation e))"

text \<open>A run with requests that succeed, one that fails, a tick and a response.\<close>

definition sample_run :: "32 word operation list" where
  "sample_run =
     [Request_Client host_ok callback_ab, Request_Shared host_ok callback_c, Tick 5,
      Response ''v1/devices/me/attributes/response/1'' (JObject [(''a'', JInt 1)]),
      Request_Client host_ok callback_ab, Request_Client host_subscribe_fails callback_c,
      Request_Shared host_ok callback_c]"

text \<open>
  A request that is answered at once: a client request, then the response on the topic
  of the id \<open>i\<close>. \<open>answered_requests c i n\<close> is \<open>n\<close> of them in a row, for the
  ids \<open>i\<close>, \<open>i + 1\<close> and so on (modulo the word size).
\<close>

definition answered_request ::
  "'w::len word Attribute_Request_Callback \<Rightarrow> 'w word \<Rightarrow> 'w word operation list" where
  "answered_request c i =
     [Request_Client host_ok c,
      Response (ATTRIBUTE_RESPONSE_TOPIC @ decimal (unat i)) (JObject [])]"

fun answered_requests ::
  "'w::len word Attribute_Request_Callback \<Rightarrow> 'w word \<Rightarrow> nat \<Rightarrow> 'w word operation list" where
  "answered_requests c i 0 = []"
| "answered_requests c i (Suc n) = answered_request c i @ answered_requests c (i + 1) n"

text \<open>
  A long run on a store with room for two records: a request that is never answered,
  then as many answered requests as it takes the counter to wrap around to 0, then one
  more request.
\<close>

definition wrap_trace :: "32 word operation list" where
  "wrap_trace =
     Request_Client host_ok callback_ab
       # answered_requests callback_c 2 4294967295
       @ [Request_Client host_ok callback_c]"

section \<open>Properties\<close>

subsection \<open>Auxiliary facts\<close>

lemma find_if_None: "find_if p xs = None \<longleftrightarrow> (\<forall>x\<in>set xs. \<not> p x)"
  by (induction xs) (auto split: option.splits)

lemma find_if_Some:
  "find_if p xs = Some i \<Longrightarrow> i < length xs \<and> p (xs ! i) \<and> (\<forall>j<i. \<not> p (xs ! j))"
proof (induction xs arbitrary: i)
  case Nil
  then show ?case by simp
next
  case (Cons x xs)
  show ?case
  proof (cases "p x")
    case True
    with Cons.prems show ?thesis by simp
  next
    case False
    with Cons.prems obtain k where k: "find_if p xs = Some k" "i = Suc k"
      by (auto split: option.splits)
    from Cons.IH [OF k(1)] False k(2) show ?thesis
      by (auto simp: less_Suc_eq_0_disj)
  qed
qed

lemma unsubscribe_if_empty_fst: "fst (unsubscribe_if_empty e) = e"
  by (simp add: unsubscribe_if_empty_def Attributes_Request_Unsubscribe_def)

lemma unsubscribe_if_empty_snd:
  "snd (unsubscribe_if_empty e) =
     (if m_attribute_request_callbacks e = []
      then [Unsubscribe_Topic ATTRIBUTE_RESPONSE_SUBSCRIBE_TOPIC] else [])"
  by (simp add: unsubscribe_if_empty_def Attributes_Request_Unsubscribe_def)

lemma Attributes_Request_cases:
  "Attributes_Request cfg h callback rk pk e = (False, e, []) \<or>
   Attributes_Request cfg h callback rk pk e =
     (False, e, [Subscribe_Topic ATTRIBUTE_RESPONSE_SUBSCRIBE_TOPIC]) \<or>
   request_id_is_null h \<and>
     Attributes_Request cfg h callback rk pk e =
       (False, e\<lparr>m_attribute_request_callbacks := m_attribute_request_callbacks e @ [callback]\<rparr>,
        [Subscribe_Topic ATTRIBUTE_RESPONSE_SUBSCRIBE_TOPIC]) \<or>
   fst (snd (Attributes_Request cfg h callback rk pk e)) =
       \<lparr>m_attribute_request_callbacks =
          m_attribute_request_callbacks e @
            [Start_Timeout_Timer (Set_Attribute_Key pk
               (Set_Request_ID (request_id_counter e + 1) callback))],
        request_id_counter = request_id_counter e + 1\<rparr> \<and>
     fst (Attributes_Request cfg h callback rk pk e) = send_json_result h"
  by (simp add: Attributes_Request_def Attributes_Request_Subscribe_def Let_def)

lemma issue_pending_ab:
  "Client_Attributes_Request config_dynamic host_ok callback_ab engine_empty =
     (True, engine_pending_ab,
      [Subscribe_Topic ''v1/devices/me/attributes/response/+'',
       Send_Json ''v1/devices/me/attributes/request/1''
         (JObject [(''clientKeys'', JString ''a,b,'')])])"
  by code_simp

subsection \<open>Failure of the subscription\<close>

text \<open>
  Claim C5. Whenever the subscription to the shared response topic fails, a request
  returns false, the engine (the store of pending records and the counter) is exactly
  as it was before the call, and nothing is sent.
\<close>

theorem Issue_subscribe_failure_no_partial_state:
  "\<not> subscribe_topic_result h \<Longrightarrow>
     fst (Attributes_Request cfg h callback rk pk e) = False \<and>
     fst (snd (Attributes_Request cfg h callback rk pk e)) = e \<and>
     \<not> list_ex is_send (snd (snd (Attributes_Request cfg h callback rk pk e)))"
  by (simp add: Attributes_Request_def Attributes_Request_Subscribe_def Let_def)

text \<open>
  An instance: a shared request made while one record is pending and the host refuses
  the subscription.
\<close>

theorem Issue_subscribe_failure_no_partial_state_witness:
  "\<not> subscribe_topic_result host_subscribe_fails \<and>
   fst (Attributes_Request config_dynamic host_subscribe_fails callback_c
          (Some SHARED_REQUEST_KEY) (Some SHARED_RESPONSE_KEY) engine_pending_ab) = False \<and>
   fst (snd (Attributes_Request config_dynamic host_subscribe_fails callback_c
          (Some SHARED_REQUEST_KEY) (Some SHARED_RESPONSE_KEY) engine_pending_ab)) = engine_pending_ab \<and>
   \<not> list_ex is_send (snd (snd (Attributes_Request config_dynamic host_subscribe_fails callback_c
          (Some SHARED_REQUEST_KEY) (Some SHARED_RESPONSE_KEY) engine_pending_ab)))"
proof -
  have h: "\<not> subscribe_topic_result host_subscribe_fails"
    by (simp add: host_subscribe_fails_def)
  from Issue_subscribe_failure_no_partial_state [OF h] h show ?thesis
    by blast
qed

subsection \<open>The bounded store\<close>

text \<open>
  Claim C8. In bounded mode, a request made while the store holds \<open>MaxSubscriptions\<close>
  records (or more) returns false, leaves the engine as it was and calls no host
  capability, so nothing is sent.
\<close>

theorem Issue_at_capacity_fails_cleanly:
  "\<not> ENABLE_DYNAMIC cfg \<Longrightarrow>
   MaxSubscriptions cfg \<le> length (m_attribute_request_callbacks e) \<Longrightarrow>
     Attributes_Request cfg h callback rk pk e = (False, e, [])"
  by (simp add: Attributes_Request_def Attributes_Request_Subscribe_def Let_def)

text \<open>
  The scenario of the claim: with capacity 1 the first request succeeds and is sent; a
  second one, made before the first is resolved, fails and leaves the store unchanged,
  with no second send.
\<close>

theorem Issue_capacity_one_scenario:
  "Client_Attributes_Request (config_bounded 1) host_ok callback_ab engine_empty =
     (True, engine_pending_ab,
      [Subscribe_Topic ''v1/devices/me/attributes/response/+'',
       Send_Json ''v1/devices/me/attributes/request/1''
         (JObject [(''clientKeys'', JString ''a,b,'')])]) \<and>
   \<not> ENABLE_DYNAMIC (config_bounded 1) \<and>
   MaxSubscriptions (config_bounded 1) \<le> length (m_attribute_request_callbacks engine_pending_ab) \<and>
   Client_Attributes_Request (config_bounded 1) host_ok callback_c engine_pending_ab =
     (False, engine_pending_ab, [])"
proof -
  have first: "Client_Attributes_Request (config_bounded 1) host_ok callback_ab engine_empty =
     (True, engine_pending_ab,
      [Subscribe_Topic ''v1/devices/me/attributes/response/+'',
       Send_Json ''v1/devices/me/attributes/request/1''
         (JObject [(''clientKeys'', JString ''a,b,'')])])"
    by code_simp
  have bounded: "\<not> ENABLE_DYNAMIC (config_bounded 1)"
    by (simp add: config_bounded_def)
  have full: "MaxSubscriptions (config_bounded 1) \<le> length (m_attribute_request_callbacks engine_pending_ab)"
    by (simp add: config_bounded_def engine_pending_ab_def)
  from Issue_at_capacity_fails_cleanly [OF bounded full] first bounded full show ?thesis
    by (simp add: Client_Attributes_Request_def)
qed

subsection \<open>Responses that match no record\<close>

text \<open>
  Claim C9. When the id in the topic of a response is the request id of no pending
  record, \<open>Process_Json_Response\<close> leaves the engine as it was (the same records, in the
  same order) and invokes no handler.
\<close>

theorem Resolve_unmatched_id_noop:
  assumes "\<forall>c\<in>set (m_attribute_request_callbacks e).
             Get_Request_ID c \<noteq> parseRequestId ATTRIBUTE_RESPONSE_TOPIC topic"
  shows "fst (Process_Json_Response topic data e) = e \<and>
         \<not> list_ex is_callback (snd (Process_Json_Response topic data e))"
proof -
  have "find_if (\<lambda>c. Get_Request_ID c = parseRequestId ATTRIBUTE_RESPONSE_TOPIC topic)
          (m_attribute_request_callbacks e) = None"
    using assms by (simp add: find_if_None)
  then have "Process_Json_Response topic data e = unsubscribe_if_empty e"
    by (simp add: Process_Json_Response_def Let_def)
  then show ?thesis
    by (simp add: unsubscribe_if_empty_fst unsubscribe_if_empty_snd)
qed

text \<open>An instance: a response for id 5 while only the record with id 1 is pending.\<close>

theorem Resolve_unmatched_id_noop_witness:
  "list_all (\<lambda>c. Get_Request_ID c \<noteq>
        parseRequestId ATTRIBUTE_RESPONSE_TOPIC ''v1/devices/me/attributes/response/5'')
      (m_attribute_request_callbacks engine_pending_ab) \<and>
   fst (Process_Json_Response ''v1/devices/me/attributes/response/5''
          (JObject [(''client'', JObject [(''a'', JInt 1)])]) engine_pending_ab) = engine_pending_ab \<and>
   \<not> list_ex is_callback (snd (Process_Json_Response ''v1/devices/me/attributes/response/5''
          (JObject [(''client'', JObject [(''a'', JInt 1)])]) engine_pending_ab))"
proof -
  have h: "list_all (\<lambda>c. Get_Request_ID c \<noteq>
        parseRequestId ATTRIBUTE_RESPONSE_TOPIC ''v1/devices/me/attributes/response/5'')
      (m_attribute_request_callbacks engine_pending_ab)"
    by code_simp
  then have "\<forall>c\<in>set (m_attribute_request_callbacks engine_pending_ab).
      Get_Request_ID c \<noteq> parseRequestId ATTRIBUTE_RESPONSE_TOPIC ''v1/devices/me/attributes/response/5''"
    by (simp add: list_all_iff)
  from Resolve_unmatched_id_noop [OF this] h show ?thesis
    by blast
qed

subsection \<open>A null request id pointer\<close>

text \<open>
  Claim C10. When a request passes the checks of its input and of the capacity, the
  subscription succeeds and the host then returns a null pointer for the request id
  counter, the request returns false and nothing is sent, but the topic has been
  subscribed and the record has been appended to the store as the caller passed it:
  the store has grown by one, and the new record has no request id and no response key
  assigned and its timer is not started.
\<close>

theorem Issue_null_request_id_leaves_record:
  assumes "Get_Attributes callback \<noteq> []" "rk \<noteq> None" "pk \<noteq> None"
    and "ENABLE_DYNAMIC cfg \<or> length (m_attribute_request_callbacks e) < MaxSubscriptions cfg"
    and "subscribe_topic_result h" "request_id_is_null h"
  shows "Attributes_Request cfg h callback rk pk e =
           (False,
            e\<lparr>m_attribute_request_callbacks := m_attribute_request_callbacks e @ [callback]\<rparr>,
            [Subscribe_Topic ATTRIBUTE_RESPONSE_SUBSCRIBE_TOPIC])"
  using assms
  by (auto simp add: Attributes_Request_def Attributes_Request_Subscribe_def Let_def)

text \<open>An instance, in bounded mode with room for two records.\<close>

theorem Issue_null_request_id_leaves_record_witness:
  "Get_Attributes callback_c \<noteq> [] \<and>
   (ENABLE_DYNAMIC (config_bounded 2) \<or>
      length (m_attribute_request_callbacks engine_pending_ab) < MaxSubscriptions (config_bounded 2)) \<and>
   subscribe_topic_result host_null_request_id \<and> request_id_is_null host_null_request_id \<and>
   Attributes_Request (config_bounded 2) host_null_request_id callback_c
       (Some SHARED_REQUEST_KEY) (Some SHARED_RESPONSE_KEY) engine_pending_ab =
     (False,
      engine_pending_ab\<lparr>m_attribute_request_callbacks :=
         m_attribute_request_callbacks engine_pending_ab @ [callback_c]\<rparr>,
      [Subscribe_Topic ATTRIBUTE_RESPONSE_SUBSCRIBE_TOPIC])"
proof -
  have a: "Get_Attributes callback_c \<noteq> []"
    by (simp add: Get_Attributes_def callback_c_def)
  have b: "ENABLE_DYNAMIC (config_bounded 2) \<or>
      length (m_attribute_request_callbacks engine_pending_ab) < MaxSubscriptions (config_bounded 2)"
    by (simp add: config_bounded_def engine_pending_ab_def)
  have c: "subscribe_topic_result host_null_request_id" "request_id_is_null host_null_request_id"
    by (simp_all add: host_null_request_id_def)
  from Issue_null_request_id_leaves_record [OF a _ _ b c, of "Some SHARED_REQUEST_KEY" "Some SHARED_RESPONSE_KEY"]
    a b c
  show ?thesis by simp
qed

subsection \<open>The request buffer\<close>

lemma comma_joined_Nil: "comma_joined [] = []"
  by (simp add: comma_joined_def)

lemma comma_joined_Cons:
  "comma_joined (att # atts) =
     (if stringIsNullorEmpty att then comma_joined atts else the att @ '','' @ comma_joined atts)"
  by (simp add: comma_joined_def)

lemma comma_joined_empty_iff:
  "comma_joined atts = [] \<longleftrightarrow> \<not> list_ex (\<lambda>att. \<not> stringIsNullorEmpty att) atts"
  by (induction atts) (simp_all add: comma_joined_Nil comma_joined_Cons)

lemma request_size_eq: "request_size atts sz = sz + length (comma_joined atts)"
  by (induction atts arbitrary: sz) (simp_all add: comma_joined_Nil comma_joined_Cons)

lemma request_fill_nothing: "comma_joined atts = [] \<Longrightarrow> request_fill atts b sz = b"
  by (induction atts arbitrary: b sz) (simp_all add: comma_joined_Cons split: if_splits)

lemma request_fill_declared_length:
  "declared_length (request_fill atts b sz) = declared_length b"
  by (induction atts arbitrary: b sz) (simp_all add: strncat_def Let_def)

lemma strncat_key_comma:
  assumes "length a + 1 \<le> sz"
  shows "strncat (strncat b a sz) '','' (sz - length a) =
           b\<lparr>chars := chars b @ a @ '','',
             written := written b @ [length (chars b) ..< length (chars b) + length a]
                        @ [length (chars b) + length a, length (chars b) + length a,
                           length (chars b) + length a + 1]\<rparr>"
proof -
  have "min sz (length a) = length a" "min (sz - length a) (Suc 0) = Suc 0"
    using assms by simp_all
  then show ?thesis
    by (simp add: strncat_def Let_def upt_rec [of "length (chars b) + length a" "Suc (length (chars b) + length a)"])
qed

lemma request_fill_chars:
  "length (comma_joined atts) \<le> sz \<Longrightarrow>
     chars (request_fill atts b sz) = chars b @ comma_joined atts"
proof (induction atts arbitrary: b sz)
  case Nil
  then show ?case by (simp add: comma_joined_Nil)
next
  case (Cons att atts)
  show ?case
  proof (cases "stringIsNullorEmpty att")
    case True
    with Cons show ?thesis by (simp add: comma_joined_Cons)
  next
    case False
    obtain a where a: "att = Some a" using False by (cases att) (auto simp: stringIsNullorEmpty_def)
    from Cons.prems False a have len: "length a + 1 + length (comma_joined atts) \<le> sz"
      by (simp add: comma_joined_Cons)
    then have l1: "length a + 1 \<le> sz" and l2: "length (comma_joined atts) \<le> sz - length a - 1" by simp_all
    have "chars (request_fill atts (strncat (strncat b a sz) '','' (sz - length a)) (sz - length a - 1))
           = chars (strncat (strncat b a sz) '','' (sz - length a)) @ comma_joined atts"
      by (rule Cons.IH [OF l2])
    then show ?thesis using False a
      by (simp add: Let_def comma_joined_Cons strncat_key_comma [OF l1])
  qed
qed

lemma request_fill_written:
  "length (comma_joined atts) \<le> sz \<Longrightarrow> comma_joined atts \<noteq> [] \<Longrightarrow>
   list_all (\<lambda>i. i < n) (written b) \<Longrightarrow> length (chars b) + length (comma_joined atts) = n \<Longrightarrow>
     written (request_fill atts b sz) \<noteq> [] \<and>
     list_all (\<lambda>i. i < n) (butlast (written (request_fill atts b sz))) \<and>
     last (written (request_fill atts b sz)) = n"
proof (induction atts arbitrary: b sz)
  case Nil
  then show ?case by (simp add: comma_joined_Nil)
next
  case (Cons att atts)
  show ?case
  proof (cases "stringIsNullorEmpty att")
    case True
    with Cons.prems have "length (comma_joined atts) \<le> sz" "comma_joined atts \<noteq> []"
      "length (chars b) + length (comma_joined atts) = n"
      by (simp_all add: comma_joined_Cons)
    from Cons.IH [OF this(1,2) Cons.prems(3) this(3)] True show ?thesis by simp
  next
    case False
    obtain a where a: "att = Some a" using False by (cases att) (auto simp: stringIsNullorEmpty_def)
    from Cons.prems(1) False a have len: "length a + 1 + length (comma_joined atts) \<le> sz"
      by (simp add: comma_joined_Cons)
    then have l1: "length a + 1 \<le> sz" and l2: "length (comma_joined atts) \<le> sz - length a - 1" by simp_all
    from Cons.prems(4) False a have n: "length (chars b) + length a + 1 + length (comma_joined atts) = n"
      by (simp add: comma_joined_Cons)
    let ?b2 = "strncat (strncat b a sz) '','' (sz - length a)"
    have step: "request_fill (att # atts) b sz = request_fill atts ?b2 (sz - length a - 1)"
      using False a by (simp add: Let_def)
    have b2: "?b2 = b\<lparr>chars := chars b @ a @ '','',
             written := written b @ [length (chars b) ..< length (chars b) + length a]
                        @ [length (chars b) + length a, length (chars b) + length a,
                           length (chars b) + length a + 1]\<rparr>"
      by (rule strncat_key_comma [OF l1])
    show ?thesis
    proof (cases "comma_joined atts = []")
      case True
      then have "request_fill atts ?b2 (sz - length a - 1) = ?b2"
        by (rule request_fill_nothing)
      with step b2 have w: "written (request_fill (att # atts) b sz) =
          (written b @ [length (chars b) ..< length (chars b) + length a]
                        @ [length (chars b) + length a, length (chars b) + length a])
          @ [length (chars b) + length a + 1]"
        by simp
      from n True have "length (chars b) + length a + 1 = n" by simp
      with Cons.prems(3) show ?thesis
        unfolding w butlast_snoc last_snoc by (auto simp: list_all_iff)
    next
      case ne: False
      then have pos: "0 < length (comma_joined atts)" by simp
      have w2: "list_all (\<lambda>i. i < n) (written ?b2)"
        using Cons.prems(3) n pos unfolding b2 by (auto simp: list_all_iff)
      have c2: "length (chars ?b2) + length (comma_joined atts) = n"
        using n unfolding b2 by simp
      from Cons.IH [OF l2 ne w2 c2] step show ?thesis by simp
    qed
  qed
qed

lemma request_value_usable:
  assumes "list_ex (\<lambda>att. \<not> stringIsNullorEmpty att) attributes"
  shows "request_value h (request_buffer_of attributes) = comma_joined attributes"
proof -
  let ?n = "length (comma_joined attributes)"
  have ne: "comma_joined attributes \<noteq> []"
    using assms by (simp add: comma_joined_empty_iff)
  have buf: "request_buffer_of attributes = request_fill attributes (new_buffer ?n) ?n"
    by (simp add: request_buffer_of_def request_size_eq Let_def)
  have "declared_length (request_buffer_of attributes) = ?n"
    unfolding buf by (simp add: request_fill_declared_length new_buffer_def)
  moreover have "chars (request_buffer_of attributes) = comma_joined attributes"
    unfolding buf by (simp add: request_fill_chars new_buffer_def)
  ultimately show ?thesis
    using ne by (simp add: request_value_def)
qed

text \<open>
  Claim C2. For every key list with at least one key that is neither null nor empty, the
  buffer holds the joined value of the spec (no key truncated, a delimiter after every
  key) and its declared length is the length of that value, with no room for the
  terminating null character: every write but the last is inside the buffer, and the
  last one, the null character that the final \<open>strncat\<close> appends, is at the index equal
  to the declared length, one past the end. So the writes do not stay within the bounds
  of the buffer.
\<close>

theorem request_buffer_terminator_out_of_bounds:
  assumes "list_ex (\<lambda>att. \<not> stringIsNullorEmpty att) attributes"
  shows "chars (request_buffer_of attributes) = comma_joined attributes \<and>
         declared_length (request_buffer_of attributes) = length (comma_joined attributes) \<and>
         list_all (\<lambda>i. i < declared_length (request_buffer_of attributes))
           (butlast (written (request_buffer_of attributes))) \<and>
         last (written (request_buffer_of attributes)) = declared_length (request_buffer_of attributes) \<and>
         \<not> in_bounds (request_buffer_of attributes)"
proof -
  let ?n = "length (comma_joined attributes)"
  have sz: "request_size attributes 0 = ?n" by (simp add: request_size_eq)
  have ne: "comma_joined attributes \<noteq> []" using assms by (simp add: comma_joined_empty_iff)
  have buf: "request_buffer_of attributes = request_fill attributes (new_buffer ?n) ?n"
    by (simp add: request_buffer_of_def sz Let_def)
  have c: "chars (request_buffer_of attributes) = comma_joined attributes"
    unfolding buf by (simp add: request_fill_chars new_buffer_def)
  have d: "declared_length (request_buffer_of attributes) = ?n"
    unfolding buf by (simp add: request_fill_declared_length new_buffer_def)
  have w: "written (request_buffer_of attributes) \<noteq> [] \<and>
           list_all (\<lambda>i. i < ?n) (butlast (written (request_buffer_of attributes))) \<and>
           last (written (request_buffer_of attributes)) = ?n"
    unfolding buf by (rule request_fill_written [OF _ ne]) (simp_all add: new_buffer_def)
  have wne: "written (request_buffer_of attributes) \<noteq> []"
    using w by simp
  have "last (written (request_buffer_of attributes)) \<in> set (written (request_buffer_of attributes))"
    using wne by simp
  with w d have "\<not> in_bounds (request_buffer_of attributes)"
    by (auto simp: in_bounds_def list_all_iff)
  with c d w show ?thesis by simp
qed

text \<open>
  The keys \<open>a\<close> and \<open>b\<close>: the array has 4 characters, the value \<open>a,b,\<close> fills them,
  and the terminating null character is written at index 4.
\<close>

theorem request_buffer_ab_overflow:
  "list_ex (\<lambda>att. \<not> stringIsNullorEmpty att) [Some ''a'', Some ''b''] \<and>
   request_buffer_of [Some ''a'', Some ''b''] =
     \<lparr>declared_length = 4, chars = ''a,b,'', written = [0, 1, 1, 2, 2, 3, 3, 4]\<rparr> \<and>
   last (written (request_buffer_of [Some ''a'', Some ''b''])) =
     declared_length (request_buffer_of [Some ''a'', Some ''b'']) \<and>
   \<not> in_bounds (request_buffer_of [Some ''a'', Some ''b''])"
proof -
  have h: "list_ex (\<lambda>att. \<not> stringIsNullorEmpty att) [Some ''a'', Some ''b'']"
    by (simp add: stringIsNullorEmpty_def)
  have v: "request_buffer_of [Some ''a'', Some ''b''] =
     \<lparr>declared_length = 4, chars = ''a,b,'', written = [0, 1, 1, 2, 2, 3, 3, 4]\<rparr>"
    by code_simp
  from request_buffer_terminator_out_of_bounds [OF h] h v show ?thesis
    by blast
qed

subsection \<open>Erroneous input\<close>

text \<open>
  Claim C7 does not hold for a null key among the requested keys: both passes over the
  keys skip a null (or empty) key and the request goes out with the keys that remain.
  Here the keys are a null pointer and \<open>a\<close>; the request succeeds, a record is stored,
  the topic is subscribed and the payload \<open>a,\<close> is sent.
\<close>

theorem Issue_null_key_not_rejected:
  "None \<in> set (Get_Attributes callback_null_key) \<and>
   Client_Attributes_Request config_dynamic host_ok callback_null_key engine_empty =
     (True,
      \<lparr>m_attribute_request_callbacks =
         [\<lparr>m_attributes = [None, Some ''a''], m_attribute_key = Some ''client'',
           m_request_id = 1, m_callback = 10, m_timeout = 1000, m_elapsed = 0,
           m_timer_armed = True\<rparr>],
       request_id_counter = 1\<rparr>,
      [Subscribe_Topic ''v1/devices/me/attributes/response/+'',
       Send_Json ''v1/devices/me/attributes/request/1''
         (JObject [(''clientKeys'', JString ''a,'')])])"
  by code_simp

text \<open>
  Claim C7, amended. A request with an empty key list, a null request-key pointer or a
  null response-key pointer returns false, leaves the engine as it was and calls no host
  capability: nothing is subscribed and nothing is sent. A null or empty key among the
  requested keys is not rejected: when at least one requested key is usable, the store
  has room, the subscription succeeds and the host gives the counter, the request is
  issued, that is the topic is subscribed, the record is stored with the next id, and
  the document sent has, under the request key, the usable keys in order, each whole and
  followed by a comma, the null and empty keys being skipped; the result is that of the
  send capability.
\<close>

theorem Issue_input_error_rejected_null_key_skipped:
  "(Get_Attributes callback = [] \<or> rk = None \<or> pk = None \<longrightarrow>
      Attributes_Request cfg h callback rk pk e = (False, e, [])) \<and>
   (list_ex (\<lambda>att. \<not> stringIsNullorEmpty att) (Get_Attributes callback) \<and>
    (ENABLE_DYNAMIC cfg \<or> length (m_attribute_request_callbacks e) < MaxSubscriptions cfg) \<and>
    subscribe_topic_result h \<and> \<not> request_id_is_null h \<longrightarrow>
      Attributes_Request cfg h callback (Some r) (Some p) e =
        (send_json_result h,
         \<lparr>m_attribute_request_callbacks =
            m_attribute_request_callbacks e @
              [Start_Timeout_Timer (Set_Attribute_Key (Some p)
                 (Set_Request_ID (request_id_counter e + 1) callback))],
          request_id_counter = request_id_counter e + 1\<rparr>,
         [Subscribe_Topic ATTRIBUTE_RESPONSE_SUBSCRIBE_TOPIC,
          Send_Json (ATTRIBUTE_REQUEST_TOPIC @ decimal (unat (request_id_counter e + 1)))
            (JObject [(r, JString (comma_joined (Get_Attributes callback)))])]))"
proof (intro conjI impI)
  assume "Get_Attributes callback = [] \<or> rk = None \<or> pk = None"
  then show "Attributes_Request cfg h callback rk pk e = (False, e, [])"
    by (auto simp add: Attributes_Request_def Let_def)
next
  assume a: "list_ex (\<lambda>att. \<not> stringIsNullorEmpty att) (Get_Attributes callback) \<and>
    (ENABLE_DYNAMIC cfg \<or> length (m_attribute_request_callbacks e) < MaxSubscriptions cfg) \<and>
    subscribe_topic_result h \<and> \<not> request_id_is_null h"
  then have ne: "Get_Attributes callback \<noteq> []" by auto
  from a have v: "request_value h (request_buffer_of (Get_Attributes callback)) =
      comma_joined (Get_Attributes callback)"
    by (simp add: request_value_usable)
  from a ne show "Attributes_Request cfg h callback (Some r) (Some p) e =
        (send_json_result h,
         \<lparr>m_attribute_request_callbacks =
            m_attribute_request_callbacks e @
              [Start_Timeout_Timer (Set_Attribute_Key (Some p)
                 (Set_Request_ID (request_id_counter e + 1) callback))],
          request_id_counter = request_id_counter e + 1\<rparr>,
         [Subscribe_Topic ATTRIBUTE_RESPONSE_SUBSCRIBE_TOPIC,
          Send_Json (ATTRIBUTE_REQUEST_TOPIC @ decimal (unat (request_id_counter e + 1)))
            (JObject [(r, JString (comma_joined (Get_Attributes callback)))])])"
    by (auto simp add: Attributes_Request_def Attributes_Request_Subscribe_def Let_def v)
qed

text \<open>
  Instances: an empty key list, a null response key, and the keys null and \<open>a\<close>, which
  are sent as \<open>a,\<close> with the id 2 while one record is pending.
\<close>

theorem Issue_input_error_rejected_null_key_skipped_witness:
  "Get_Attributes callback_no_keys = [] \<and>
   Attributes_Request config_dynamic host_ok callback_no_keys
     (Some CLIENT_REQUEST_KEYS) (Some CLIENT_RESPONSE_KEY) engine_pending_ab
     = (False, engine_pending_ab, []) \<and>
   Attributes_Request config_dynamic host_ok callback_ab
     (Some CLIENT_REQUEST_KEYS) None engine_pending_ab
     = (False, engine_pending_ab, []) \<and>
   list_ex (\<lambda>att. \<not> stringIsNullorEmpty att) (Get_Attributes callback_null_key) \<and>
   ENABLE_DYNAMIC config_dynamic \<and> subscribe_topic_result host_ok \<and>
   \<not> request_id_is_null host_ok \<and>
   comma_joined (Get_Attributes callback_null_key) = ''a,'' \<and>
   Attributes_Request config_dynamic host_ok callback_null_key
     (Some CLIENT_REQUEST_KEYS) (Some CLIENT_RESPONSE_KEY) engine_pending_ab =
     (True,
      \<lparr>m_attribute_request_callbacks =
         m_attribute_request_callbacks engine_pending_ab @
           [Start_Timeout_Timer (Set_Attribute_Key (Some CLIENT_RESPONSE_KEY)
              (Set_Request_ID 2 callback_null_key))],
       request_id_counter = 2\<rparr>,
      [Subscribe_Topic ATTRIBUTE_RESPONSE_SUBSCRIBE_TOPIC,
       Send_Json (ATTRIBUTE_REQUEST_TOPIC @ ''2'')
         (JObject [(CLIENT_REQUEST_KEYS, JString ''a,'')])])"
proof -
  have h: "Get_Attributes callback_no_keys = []"
    by (simp add: Get_Attributes_def callback_no_keys_def)
  have u: "list_ex (\<lambda>att. \<not> stringIsNullorEmpty att) (Get_Attributes callback_null_key)"
    "ENABLE_DYNAMIC config_dynamic" "subscribe_topic_result host_ok"
    "\<not> request_id_is_null host_ok" "send_json_result host_ok"
    by (simp_all add: Get_Attributes_def callback_null_key_def stringIsNullorEmpty_def
        config_dynamic_def host_ok_def)
  have v: "comma_joined (Get_Attributes callback_null_key) = ''a,''"
    "request_id_counter engine_pending_ab + 1 = 2"
    "decimal (unat (2 :: 32 word)) = ''2''"
    by code_simp+
  from Issue_input_error_rejected_null_key_skipped [of callback_no_keys "Some CLIENT_REQUEST_KEYS" "Some CLIENT_RESPONSE_KEY"
      config_dynamic host_ok engine_pending_ab]
    Issue_input_error_rejected_null_key_skipped [of callback_ab "Some CLIENT_REQUEST_KEYS" None config_dynamic host_ok engine_pending_ab]
    Issue_input_error_rejected_null_key_skipped [of callback_null_key "Some CLIENT_REQUEST_KEYS" "Some CLIENT_RESPONSE_KEY"
      config_dynamic host_ok engine_pending_ab CLIENT_REQUEST_KEYS CLIENT_RESPONSE_KEY]
    h u v
  show ?thesis by simp
qed

subsection \<open>The round trip of a client request\<close>

text \<open>
  Claim C4. A client request for the keys \<open>a\<close> and \<open>b\<close> sends a document whose
  field \<open>clientKeys\<close> has the value \<open>a,b,\<close>; a response document with the member
  \<open>client\<close> delivers that member, the object with \<open>a\<close> set to 1, to the handler;
  a response document that is the object itself, without the wrapper, delivers the same
  object.
\<close>

theorem client_request_round_trip:
  "Client_Attributes_Request config_dynamic host_ok callback_ab engine_empty =
     (True, engine_pending_ab,
      [Subscribe_Topic ''v1/devices/me/attributes/response/+'',
       Send_Json ''v1/devices/me/attributes/request/1''
         (JObject [(''clientKeys'', JString ''a,b,'')])]) \<and>
   Process_Json_Response ''v1/devices/me/attributes/response/1''
       (JObject [(''client'', JObject [(''a'', JInt 1)])]) engine_pending_ab =
     (\<lparr>m_attribute_request_callbacks = [], request_id_counter = 1\<rparr>,
      [Callback_Called 7 (Some [(''a'', JInt 1)]),
       Unsubscribe_Topic ''v1/devices/me/attributes/response/+'']) \<and>
   Process_Json_Response ''v1/devices/me/attributes/response/1''
       (JObject [(''a'', JInt 1)]) engine_pending_ab =
     (\<lparr>m_attribute_request_callbacks = [], request_id_counter = 1\<rparr>,
      [Callback_Called 7 (Some [(''a'', JInt 1)]),
       Unsubscribe_Topic ''v1/devices/me/attributes/response/+''])"
  by code_simp

subsection \<open>Completion of a pending record\<close>

lemma Helper_remove_length: "i < length xs \<Longrightarrow> length (Helper_remove xs i) + 1 = length xs"
  by (simp add: Helper_remove_def)

lemma Process_Json_Response_found:
  assumes "find_if (\<lambda>c. Get_Request_ID c = parseRequestId ATTRIBUTE_RESPONSE_TOPIC topic)
             (m_attribute_request_callbacks e) = Some i"
  shows "Process_Json_Response topic data e =
           (e\<lparr>m_attribute_request_callbacks := Helper_remove (m_attribute_request_callbacks e) i\<rparr>,
            (case Get_Attribute_Key (m_attribute_request_callbacks e ! i) of
               None \<Rightarrow> []
             | Some k \<Rightarrow>
                 [Callback_Called (m_callback (m_attribute_request_callbacks e ! i))
                    (if containsKey (as_JsonObjectConst data) k
                     then getMember (as_JsonObjectConst data) k else as_JsonObjectConst data)])
            @ (if Helper_remove (m_attribute_request_callbacks e) i = []
               then [Unsubscribe_Topic ATTRIBUTE_RESPONSE_SUBSCRIBE_TOPIC] else []))"
  using assms
  by (simp add: Process_Json_Response_def Let_def unsubscribe_if_empty_def
      Attributes_Request_Unsubscribe_def Call_Callback_def Stop_Timeout_Timer_def
      split: option.splits)

lemma Process_Json_Response_not_found:
  assumes "find_if (\<lambda>c. Get_Request_ID c = parseRequestId ATTRIBUTE_RESPONSE_TOPIC topic)
             (m_attribute_request_callbacks e) = None"
  shows "Process_Json_Response topic data e =
           (e, if m_attribute_request_callbacks e = []
               then [Unsubscribe_Topic ATTRIBUTE_RESPONSE_SUBSCRIBE_TOPIC] else [])"
  using assms
  by (simp add: Process_Json_Response_def Let_def unsubscribe_if_empty_def
      Attributes_Request_Unsubscribe_def)

lemma update_all_length: "length (fst (update_all upd cs)) = length cs"
  by (induction cs) (auto split: prod.splits)

lemma Update_Timeout_Timer_timer:
  "without_timer (fst (Update_Timeout_Timer dt c)) = without_timer c \<and>
   list_all is_timeout (snd (Update_Timeout_Timer dt c))"
  by (simp add: Update_Timeout_Timer_def without_timer_def)

lemma update_all_timers:
  "map without_timer (fst (update_all (Update_Timeout_Timer dt) cs)) = map without_timer cs \<and>
   list_all is_timeout (snd (update_all (Update_Timeout_Timer dt) cs))"
  by (induction cs) (simp_all add: case_prod_beta Update_Timeout_Timer_timer)

lemma other_element_kept:
  assumes "x \<in> set xs" "x \<noteq> xs ! i"
  shows "x \<in> set (take i xs @ drop (Suc i) xs)"
proof -
  from assms(1) obtain j where j: "j < length xs" "xs ! j = x"
    by (auto simp: in_set_conv_nth)
  with assms(2) have "j \<noteq> i" by auto
  then consider "j < i" | "i < j" by arith
  then show ?thesis
  proof cases
    case 1
    with j have "take i xs ! j = x" "j < length (take i xs)" by simp_all
    then have "x \<in> set (take i xs)" using nth_mem by blast
    then show ?thesis by simp
  next
    case 2
    define k where "k = j - Suc i"
    with 2 j have k: "Suc i + k = j" "k < length (drop (Suc i) xs)" by simp_all
    then have "drop (Suc i) xs ! k = x" using j by (simp add: add.commute)
    with k(2) have "x \<in> set (drop (Suc i) xs)" using nth_mem by blast
    then show ?thesis by simp
  qed
qed

lemma Attributes_Request_keeps:
  assumes "c \<in> set (m_attribute_request_callbacks e)"
  shows "c \<in> set (m_attribute_request_callbacks (fst (snd (Attributes_Request cfg h callback rk pk e))))"
  using Attributes_Request_cases [of cfg h callback rk pk e] assms by auto

text \<open>
  Claim C1 does not hold as stated. The tick only advances the timers: a record whose
  timeout has expired, and whose handler has been given the timeout outcome, is still
  in the store after \<open>loop\<close>, and a response that arrives afterwards invokes its handler
  again before the record is removed. And a record that was stored without a response
  key (a request for which the host returned no request id) is removed by a matching
  response without any call of its handler.
\<close>

theorem expired_record_stays_and_null_key_skips_handler:
  "loop 1001 engine_pending_ab =
     (\<lparr>m_attribute_request_callbacks =
        [\<lparr>m_attributes = [Some ''a'', Some ''b''], m_attribute_key = Some ''client'',
          m_request_id = 1, m_callback = 7, m_timeout = 1000, m_elapsed = 1001,
          m_timer_armed = False\<rparr>],
      request_id_counter = 1\<rparr>,
      [Timeout_Called 7]) \<and>
   Process_Json_Response ''v1/devices/me/attributes/response/1''
       (JObject [(''client'', JObject [(''a'', JInt 1)])]) (fst (loop 1001 engine_pending_ab)) =
     (\<lparr>m_attribute_request_callbacks = [], request_id_counter = 1\<rparr>,
      [Callback_Called 7 (Some [(''a'', JInt 1)]),
       Unsubscribe_Topic ''v1/devices/me/attributes/response/+'']) \<and>
   Client_Attributes_Request config_dynamic host_null_request_id callback_c engine_empty =
     (False, \<lparr>m_attribute_request_callbacks = [callback_c], request_id_counter = 0\<rparr>,
      [Subscribe_Topic ''v1/devices/me/attributes/response/+'']) \<and>
   Process_Json_Response ''v1/devices/me/attributes/response/0''
       (JObject [(''client'', JObject [(''c'', JInt 1)])])
       \<lparr>m_attribute_request_callbacks = [callback_c], request_id_counter = 0\<rparr> =
     (\<lparr>m_attribute_request_callbacks = [], request_id_counter = 0\<rparr>,
      [Unsubscribe_Topic ''v1/devices/me/attributes/response/+''])"
  by code_simp

text \<open>
  Claim C1, amended. When a response matches a pending record (the first one with the
  id of the topic, at position \<open>i\<close>), \<open>Process_Json_Response\<close> removes that record,
  it alone and once: the store afterwards is the records before position \<open>i\<close> followed
  by the records after it, one record fewer. The handler of the removed record is
  invoked exactly once, with the document narrowed to the member named by the response
  key when there is one, if its response key is set, and not at all if its response key
  is null; no other handler is invoked. A record stays in the store through a response
  with another id and through every request. The tick removes no record, whether
  expired or not: whatever \<open>Update_Timeout_Timer\<close> does to a record, the store has as
  many records after the tick as before and the counter is unchanged, and with the
  tracker modelled here the tick changes nothing in the records but their timers and
  calls nothing but timeout handlers. The global unsubscription empties the store and
  calls the unsubscribe capability once, for the shared response topic.
\<close>

theorem matched_record_removed_once_sweep_removes_none:
  "(find_if (\<lambda>c. Get_Request_ID c = parseRequestId ATTRIBUTE_RESPONSE_TOPIC topic)
       (m_attribute_request_callbacks e) = Some i \<longrightarrow>
      i < length (m_attribute_request_callbacks e) \<and>
      m_attribute_request_callbacks (fst (Process_Json_Response topic data e)) =
        take i (m_attribute_request_callbacks e) @ drop (Suc i) (m_attribute_request_callbacks e) \<and>
      length (m_attribute_request_callbacks (fst (Process_Json_Response topic data e))) + 1 =
        length (m_attribute_request_callbacks e) \<and>
      filter is_callback (snd (Process_Json_Response topic data e)) =
        (case Get_Attribute_Key (m_attribute_request_callbacks e ! i) of
           None \<Rightarrow> []
         | Some k \<Rightarrow>
             [Callback_Called (m_callback (m_attribute_request_callbacks e ! i))
                (if containsKey (as_JsonObjectConst data) k
                 then getMember (as_JsonObjectConst data) k else as_JsonObjectConst data)])) \<and>
   (c \<in> set (m_attribute_request_callbacks e) \<and>
    Get_Request_ID c \<noteq> parseRequestId ATTRIBUTE_RESPONSE_TOPIC topic \<longrightarrow>
      c \<in> set (m_attribute_request_callbacks (fst (Process_Json_Response topic data e)))) \<and>
   (c \<in> set (m_attribute_request_callbacks e) \<longrightarrow>
      c \<in> set (m_attribute_request_callbacks
                 (fst (snd (Attributes_Request cfg h callback rk pk e))))) \<and>
   length (m_attribute_request_callbacks (fst (loop_with upd e))) =
     length (m_attribute_request_callbacks e) \<and>
   request_id_counter (fst (loop_with upd e)) = request_id_counter e \<and>
   map without_timer (m_attribute_request_callbacks (fst (loop dt e))) =
     map without_timer (m_attribute_request_callbacks e) \<and>
   list_all is_timeout (snd (loop dt e)) \<and>
   Unsubscribe r e =
     (r, e\<lparr>m_attribute_request_callbacks := []\<rparr>,
      [Unsubscribe_Topic ATTRIBUTE_RESPONSE_SUBSCRIBE_TOPIC])"
proof -
  let ?p = "\<lambda>c. Get_Request_ID c = parseRequestId ATTRIBUTE_RESPONSE_TOPIC topic"
  let ?cbs = "m_attribute_request_callbacks e"
  have matched: "find_if ?p ?cbs = Some i \<longrightarrow>
      i < length ?cbs \<and>
      m_attribute_request_callbacks (fst (Process_Json_Response topic data e)) =
        take i ?cbs @ drop (Suc i) ?cbs \<and>
      length (m_attribute_request_callbacks (fst (Process_Json_Response topic data e))) + 1 =
        length ?cbs \<and>
      filter is_callback (snd (Process_Json_Response topic data e)) =
        (case Get_Attribute_Key (?cbs ! i) of
           None \<Rightarrow> []
         | Some k \<Rightarrow>
             [Callback_Called (m_callback (?cbs ! i))
                (if containsKey (as_JsonObjectConst data) k
                 then getMember (as_JsonObjectConst data) k else as_JsonObjectConst data)])"
  proof
    assume f: "find_if ?p ?cbs = Some i"
    from find_if_Some [OF f] have i: "i < length ?cbs" by simp
    show "i < length ?cbs \<and>
      m_attribute_request_callbacks (fst (Process_Json_Response topic data e)) =
        take i ?cbs @ drop (Suc i) ?cbs \<and>
      length (m_attribute_request_callbacks (fst (Process_Json_Response topic data e))) + 1 =
        length ?cbs \<and>
      filter is_callback (snd (Process_Json_Response topic data e)) =
        (case Get_Attribute_Key (?cbs ! i) of
           None \<Rightarrow> []
         | Some k \<Rightarrow>
             [Callback_Called (m_callback (?cbs ! i))
                (if containsKey (as_JsonObjectConst data) k
                 then getMember (as_JsonObjectConst data) k else as_JsonObjectConst data)])"
      unfolding Process_Json_Response_found [OF f]
      using i Helper_remove_length [OF i]
      by (simp add: Helper_remove_def split: option.splits)
  qed
  have other: "c \<in> set ?cbs \<and> Get_Request_ID c \<noteq> parseRequestId ATTRIBUTE_RESPONSE_TOPIC topic \<longrightarrow>
      c \<in> set (m_attribute_request_callbacks (fst (Process_Json_Response topic data e)))"
  proof
    assume a: "c \<in> set ?cbs \<and> Get_Request_ID c \<noteq> parseRequestId ATTRIBUTE_RESPONSE_TOPIC topic"
    show "c \<in> set (m_attribute_request_callbacks (fst (Process_Json_Response topic data e)))"
    proof (cases "find_if ?p ?cbs")
      case None
      with a show ?thesis by (simp add: Process_Json_Response_not_found)
    next
      case (Some j)
      from find_if_Some [OF Some] a have "c \<noteq> ?cbs ! j" by auto
      with a other_element_kept [of c ?cbs j]
      have "c \<in> set (take j ?cbs @ drop (Suc j) ?cbs)"
        by blast
      then show ?thesis
        unfolding Process_Json_Response_found [OF Some] by (simp add: Helper_remove_def)
    qed
  qed
  have request: "c \<in> set ?cbs \<longrightarrow>
      c \<in> set (m_attribute_request_callbacks (fst (snd (Attributes_Request cfg h callback rk pk e))))"
    by (simp add: Attributes_Request_keeps)
  have tick_any: "length (m_attribute_request_callbacks (fst (loop_with upd e))) = length ?cbs \<and>
      request_id_counter (fst (loop_with upd e)) = request_id_counter e"
  proof -
    have "fst (loop_with upd e) =
        e\<lparr>m_attribute_request_callbacks := fst (update_all upd ?cbs)\<rparr>"
      by (simp add: loop_with_def split: prod.splits)
    then show ?thesis by (simp add: update_all_length)
  qed
  have tick: "map without_timer (m_attribute_request_callbacks (fst (loop dt e))) =
        map without_timer ?cbs \<and>
      list_all is_timeout (snd (loop dt e))"
  proof -
    have "loop dt e =
        (e\<lparr>m_attribute_request_callbacks := fst (update_all (Update_Timeout_Timer dt) ?cbs)\<rparr>,
         snd (update_all (Update_Timeout_Timer dt) ?cbs))"
      by (simp add: loop_def loop_with_def split: prod.splits)
    then show ?thesis by (simp add: update_all_timers)
  qed
  have unsub: "Unsubscribe r e =
     (r, e\<lparr>m_attribute_request_callbacks := []\<rparr>,
      [Unsubscribe_Topic ATTRIBUTE_RESPONSE_SUBSCRIBE_TOPIC])"
    by (simp add: Unsubscribe_def Attributes_Request_Unsubscribe_def)
  show ?thesis
    by (intro conjI matched other request tick_any [THEN conjunct1] tick_any [THEN conjunct2]
        tick [THEN conjunct1] tick [THEN conjunct2] unsub)
qed

text \<open>
  An instance with two records pending, ids 1 and 2: the response for id 2 removes the
  second record and invokes its handler with the narrowed document, and the record with
  id 1 stays; a tick past the timeout leaves both records in the store, with nothing
  changed but their timers; the global unsubscription empties the store.
\<close>

theorem matched_record_removed_once_sweep_removes_none_witness:
  "find_if (\<lambda>c. Get_Request_ID c =
        parseRequestId ATTRIBUTE_RESPONSE_TOPIC ''v1/devices/me/attributes/response/2'')
      (m_attribute_request_callbacks engine_pending_two) = Some 1 \<and>
   m_attribute_request_callbacks (fst (Process_Json_Response ''v1/devices/me/attributes/response/2''
       (JObject [(''shared'', JObject [(''c'', JInt 3)])]) engine_pending_two)) =
     m_attribute_request_callbacks engine_pending_ab \<and>
   filter is_callback (snd (Process_Json_Response ''v1/devices/me/attributes/response/2''
       (JObject [(''shared'', JObject [(''c'', JInt 3)])]) engine_pending_two)) =
     [Callback_Called 8 (Some [(''c'', JInt 3)])] \<and>
   hd (m_attribute_request_callbacks engine_pending_two) \<in>
     set (m_attribute_request_callbacks (fst (Process_Json_Response
       ''v1/devices/me/attributes/response/2''
       (JObject [(''shared'', JObject [(''c'', JInt 3)])]) engine_pending_two))) \<and>
   length (m_attribute_request_callbacks (fst (loop 1001 engine_pending_two))) = 2 \<and>
   map without_timer (m_attribute_request_callbacks (fst (loop 1001 engine_pending_two))) =
     map without_timer (m_attribute_request_callbacks engine_pending_two) \<and>
   snd (loop 1001 engine_pending_two) = [Timeout_Called 7, Timeout_Called 8] \<and>
   m_attribute_request_callbacks (fst (snd (Unsubscribe True engine_pending_two))) = []"
proof -
  let ?topic = "''v1/devices/me/attributes/response/2''"
  let ?data = "JObject [(''shared'', JObject [(''c'', JInt 3)])]"
  have h: "find_if (\<lambda>c. Get_Request_ID c = parseRequestId ATTRIBUTE_RESPONSE_TOPIC ?topic)
      (m_attribute_request_callbacks engine_pending_two) = Some 1"
    by code_simp
  have v: "take 1 (m_attribute_request_callbacks engine_pending_two) @
       drop (Suc 1) (m_attribute_request_callbacks engine_pending_two) =
       m_attribute_request_callbacks engine_pending_ab"
    "Get_Attribute_Key (m_attribute_request_callbacks engine_pending_two ! 1) = Some ''shared''"
    "m_callback (m_attribute_request_callbacks engine_pending_two ! 1) = 8"
    "containsKey (as_JsonObjectConst ?data) ''shared''"
    "getMember (as_JsonObjectConst ?data) ''shared'' = Some [(''c'', JInt 3)]"
    "hd (m_attribute_request_callbacks engine_pending_two) \<in>
       set (m_attribute_request_callbacks engine_pending_two)"
    "Get_Request_ID (hd (m_attribute_request_callbacks engine_pending_two)) \<noteq>
       parseRequestId ATTRIBUTE_RESPONSE_TOPIC ?topic"
    "length (m_attribute_request_callbacks engine_pending_two) = 2"
    "snd (loop 1001 engine_pending_two) = [Timeout_Called 7, Timeout_Called 8]"
    "hd (m_attribute_request_callbacks engine_pending_two) \<in>
       set (m_attribute_request_callbacks engine_pending_ab)"
    by code_simp+
  have l: "loop_with (Update_Timeout_Timer 1001) engine_pending_two = loop 1001 engine_pending_two"
    by (simp add: loop_def)
  from matched_record_removed_once_sweep_removes_none [where topic = ?topic and data = ?data
      and e = engine_pending_two and i = 1
      and c = "hd (m_attribute_request_callbacks engine_pending_two)"
      and dt = 1001 and upd = "Update_Timeout_Timer 1001" and r = True] h v l
  show ?thesis by simp
qed

subsection \<open>Subscription and unsubscription\<close>

text \<open>
  Claim C3 does not hold as stated: the engine keeps no record of being subscribed, and
  every request that passes the checks of its input and of the capacity calls the
  subscribe capability. Here a second request is made while the first is pending: it
  subscribes again.
\<close>

theorem second_request_subscribes_again:
  "m_attribute_request_callbacks engine_pending_ab \<noteq> [] \<and>
   Client_Attributes_Request config_dynamic host_ok callback_ab engine_empty =
     (True, engine_pending_ab,
      [Subscribe_Topic ''v1/devices/me/attributes/response/+'',
       Send_Json ''v1/devices/me/attributes/request/1''
         (JObject [(''clientKeys'', JString ''a,b,'')])]) \<and>
   Shared_Attributes_Request config_dynamic host_ok callback_c engine_pending_ab =
     (True,
      \<lparr>m_attribute_request_callbacks =
         [\<lparr>m_attributes = [Some ''a'', Some ''b''], m_attribute_key = Some ''client'',
           m_request_id = 1, m_callback = 7, m_timeout = 1000, m_elapsed = 0,
           m_timer_armed = True\<rparr>,
          \<lparr>m_attributes = [Some ''c''], m_attribute_key = Some ''shared'',
           m_request_id = 2, m_callback = 8, m_timeout = 1000, m_elapsed = 0,
           m_timer_armed = True\<rparr>],
       request_id_counter = 2\<rparr>,
      [Subscribe_Topic ''v1/devices/me/attributes/response/+'',
       Send_Json ''v1/devices/me/attributes/request/2''
         (JObject [(''sharedKeys'', JString ''c,'')])])"
  by code_simp

text \<open>
  Claim C3, amended. A request calls the subscribe capability exactly once, for the
  shared response topic, when its key list is not empty, its request and response keys
  are not null and, in bounded mode, the store is not full, whether or not records are
  already pending, and not at all otherwise; so the request that stores the first record
  subscribes exactly once, and so does every later one. A request never unsubscribes.
  \<open>Process_Json_Response\<close> calls the unsubscribe capability exactly once, for the shared
  response topic, when it leaves the store empty, as it does when it removes the last
  record, and not at all when records remain; it never subscribes.
\<close>

theorem subscribe_every_request_unsubscribe_when_empty:
  "filter is_subscribe (snd (snd (Attributes_Request cfg h callback rk pk e))) =
     (if Get_Attributes callback \<noteq> [] \<and> rk \<noteq> None \<and> pk \<noteq> None \<and>
         (ENABLE_DYNAMIC cfg \<or> length (m_attribute_request_callbacks e) < MaxSubscriptions cfg)
      then [Subscribe_Topic ATTRIBUTE_RESPONSE_SUBSCRIBE_TOPIC] else []) \<and>
   filter is_unsubscribe (snd (snd (Attributes_Request cfg h callback rk pk e))) = [] \<and>
   filter is_unsubscribe (snd (Process_Json_Response topic data e)) =
     (if m_attribute_request_callbacks (fst (Process_Json_Response topic data e)) = []
      then [Unsubscribe_Topic ATTRIBUTE_RESPONSE_SUBSCRIBE_TOPIC] else []) \<and>
   filter is_subscribe (snd (Process_Json_Response topic data e)) = []"
proof -
  have a: "filter is_subscribe (snd (snd (Attributes_Request cfg h callback rk pk e))) =
     (if Get_Attributes callback \<noteq> [] \<and> rk \<noteq> None \<and> pk \<noteq> None \<and>
         (ENABLE_DYNAMIC cfg \<or> length (m_attribute_request_callbacks e) < MaxSubscriptions cfg)
      then [Subscribe_Topic ATTRIBUTE_RESPONSE_SUBSCRIBE_TOPIC] else [])"
    by (auto simp add: Attributes_Request_def Attributes_Request_Subscribe_def Let_def)
  have a': "filter is_unsubscribe (snd (snd (Attributes_Request cfg h callback rk pk e))) = []"
    by (auto simp add: Attributes_Request_def Attributes_Request_Subscribe_def Let_def)
  have b: "filter is_unsubscribe (snd (Process_Json_Response topic data e)) =
     (if m_attribute_request_callbacks (fst (Process_Json_Response topic data e)) = []
      then [Unsubscribe_Topic ATTRIBUTE_RESPONSE_SUBSCRIBE_TOPIC] else []) \<and>
    filter is_subscribe (snd (Process_Json_Response topic data e)) = []"
  proof (cases "find_if (\<lambda>c. Get_Request_ID c = parseRequestId ATTRIBUTE_RESPONSE_TOPIC topic)
             (m_attribute_request_callbacks e)")
    case None
    then show ?thesis by (simp add: Process_Json_Response_not_found)
  next
    case (Some i)
    then show ?thesis by (simp add: Process_Json_Response_found split: option.splits)
  qed
  from a a' b show ?thesis by simp
qed

text \<open>
  An instance: a second request while one record is pending subscribes once to the
  shared response topic; the response that removes the only pending record unsubscribes
  once from it.
\<close>

theorem subscribe_every_request_unsubscribe_when_empty_witness:
  "filter is_subscribe (snd (snd (Attributes_Request config_dynamic host_ok callback_c
      (Some SHARED_REQUEST_KEY) (Some SHARED_RESPONSE_KEY) engine_pending_ab))) =
     [Subscribe_Topic ''v1/devices/me/attributes/response/+''] \<and>
   filter is_unsubscribe (snd (Process_Json_Response ''v1/devices/me/attributes/response/1''
      (JObject [(''a'', JInt 1)]) engine_pending_ab)) =
     [Unsubscribe_Topic ''v1/devices/me/attributes/response/+'']"
proof -
  have a: "Get_Attributes callback_c \<noteq> []"
    by (simp add: Get_Attributes_def callback_c_def)
  have b: "ENABLE_DYNAMIC config_dynamic"
    by (simp add: config_dynamic_def)
  have c: "m_attribute_request_callbacks (fst (Process_Json_Response
      ''v1/devices/me/attributes/response/1'' (JObject [(''a'', JInt 1)]) engine_pending_ab)) = []"
    by code_simp
  from subscribe_every_request_unsubscribe_when_empty [of config_dynamic host_ok callback_c
      "Some SHARED_REQUEST_KEY" "Some SHARED_RESPONSE_KEY" engine_pending_ab
      "''v1/devices/me/attributes/response/1''" "JObject [(''a'', JInt 1)]"] a b c
  show ?thesis by (simp add: ATTRIBUTE_RESPONSE_SUBSCRIBE_TOPIC_def)
qed

subsection \<open>Request ids\<close>

lemma Attributes_Request_state:
  "fst (snd (Attributes_Request cfg h callback (Some r) (Some p) e)) =
     (if reaches_request_id cfg h callback e
      then if request_id_is_null h
        then e\<lparr>m_attribute_request_callbacks := m_attribute_request_callbacks e @ [callback]\<rparr>
        else \<lparr>m_attribute_request_callbacks =
                m_attribute_request_callbacks e @
                  [Start_Timeout_Timer (Set_Attribute_Key (Some p)
                     (Set_Request_ID (request_id_counter e + 1) callback))],
              request_id_counter = request_id_counter e + 1\<rparr>
      else e)"
  by (simp add: Attributes_Request_def Attributes_Request_Subscribe_def Let_def
      reaches_request_id_def)

lemma unat_Suc_below_max:
  fixes c :: "'w::len word"
  assumes "c \<noteq> - 1"
  shows "unat (c + 1) = unat c + 1"
proof -
  from assms have "1 + c \<noteq> 0"
    by (metis add_diff_cancel_left' diff_0)
  then have "unat (1 + c) = Suc (unat c)"
    by (rule unatSuc)
  then show ?thesis by (simp add: add.commute)
qed

lemma Attributes_Request_orderly:
  fixes e :: "'w::len word engine"
  assumes inv: "ids_in_order e"
    and avail: "\<not> (reaches_request_id cfg h callback e \<and> request_id_is_null h)"
    and room: "\<not> (request_id_counter e = - 1 \<and>
       request_id_counter (fst (snd (Attributes_Request cfg h callback (Some r) (Some p) e))) = 0)"
  shows "ids_in_order (fst (snd (Attributes_Request cfg h callback (Some r) (Some p) e)))"
proof (cases "reaches_request_id cfg h callback e")
  case False
  with inv show ?thesis by (simp add: Attributes_Request_state)
next
  case True
  with avail have nn: "\<not> request_id_is_null h" by simp
  let ?new = "\<lparr>m_attribute_request_callbacks =
          m_attribute_request_callbacks e @
            [Start_Timeout_Timer (Set_Attribute_Key (Some p)
               (Set_Request_ID (request_id_counter e + 1) callback))],
        request_id_counter = request_id_counter e + 1\<rparr>"
  have st: "fst (snd (Attributes_Request cfg h callback (Some r) (Some p) e)) = ?new"
    using True nn by (simp add: Attributes_Request_state)
  have "request_id_counter e \<noteq> - 1"
  proof
    assume m: "request_id_counter e = - 1"
    then have "request_id_counter ?new = 0" by simp
    with room m st show False by simp
  qed
  then have suc: "unat (request_id_counter e + 1) = unat (request_id_counter e) + 1"
    by (rule unat_Suc_below_max)
  have fresh: "request_id_counter e + 1 \<notin> m_request_id ` set (m_attribute_request_callbacks e)"
  proof
    assume "request_id_counter e + 1 \<in> m_request_id ` set (m_attribute_request_callbacks e)"
    then obtain c where "c \<in> set (m_attribute_request_callbacks e)"
      "m_request_id c = request_id_counter e + 1" by auto
    with inv suc show False by (auto simp: ids_in_order_def list_all_iff)
  qed
  have "ids_in_order ?new"
    using inv fresh suc
    by (auto simp: ids_in_order_def list_all_iff Start_Timeout_Timer_def
        Set_Attribute_Key_def Set_Request_ID_def)
  with st show ?thesis by simp
qed

lemma Helper_remove_subset: "x \<in> set (Helper_remove xs i) \<Longrightarrow> x \<in> set xs"
  by (auto simp: Helper_remove_def dest: in_set_takeD in_set_dropD)

lemma Helper_remove_distinct: "distinct (map f xs) \<Longrightarrow> distinct (map f (Helper_remove xs i))"
proof -
  assume d: "distinct (map f xs)"
  have "distinct (map f (take i xs) @ map f (drop i xs))"
    using d by (simp flip: map_append)
  moreover have "set (drop (Suc i) xs) \<subseteq> set (drop i xs)"
    by (simp add: set_drop_subset_set_drop)
  moreover have "distinct (map f (drop (Suc i) xs))"
    using d by (simp flip: drop_map)
  ultimately show ?thesis
    by (auto simp: Helper_remove_def)
qed

lemma Process_Json_Response_store:
  "fst (Process_Json_Response topic data e) = e \<or>
   (\<exists>i. fst (Process_Json_Response topic data e) =
      e\<lparr>m_attribute_request_callbacks := Helper_remove (m_attribute_request_callbacks e) i\<rparr>)"
proof (cases "find_if (\<lambda>c. Get_Request_ID c = parseRequestId ATTRIBUTE_RESPONSE_TOPIC topic)
             (m_attribute_request_callbacks e)")
  case None
  then show ?thesis
    by (simp add: Process_Json_Response_def Let_def unsubscribe_if_empty_fst)
next
  case (Some i)
  then show ?thesis
    by (simp add: Process_Json_Response_def Let_def unsubscribe_if_empty_fst split: prod.splits)
       (metis fst_conv unsubscribe_if_empty_fst)
qed

lemma Helper_remove_ids:
  assumes "ids_in_order e"
  shows "ids_in_order (e\<lparr>m_attribute_request_callbacks :=
            Helper_remove (m_attribute_request_callbacks e) i\<rparr>)"
proof -
  have "\<forall>c\<in>set (Helper_remove (m_attribute_request_callbacks e) i).
          unat (m_request_id c) \<le> unat (request_id_counter e)"
    using assms Helper_remove_subset [of _ "m_attribute_request_callbacks e" i]
    by (auto simp: ids_in_order_def list_all_iff)
  with assms show ?thesis
    by (simp add: ids_in_order_def list_all_iff Helper_remove_distinct)
qed

lemma Process_Json_Response_ids:
  assumes "ids_in_order e"
  shows "ids_in_order (fst (Process_Json_Response topic data e)) \<and>
         request_id_counter (fst (Process_Json_Response topic data e)) = request_id_counter e"
  using Process_Json_Response_store [of topic data e] assms Helper_remove_ids [OF assms]
  by auto

lemma update_all_request_ids:
  "map m_request_id (fst (update_all (Update_Timeout_Timer dt) cs)) = map m_request_id cs"
  by (induction cs) (auto simp: Update_Timeout_Timer_def split: prod.splits if_splits)

lemma loop_ids:
  assumes "ids_in_order e"
  shows "ids_in_order (fst (loop dt e)) \<and> request_id_counter (fst (loop dt e)) = request_id_counter e"
proof -
  have eq: "fst (loop dt e) =
      e\<lparr>m_attribute_request_callbacks := fst (update_all (Update_Timeout_Timer dt) (m_attribute_request_callbacks e))\<rparr>"
    by (simp add: loop_def loop_with_def split: prod.splits)
  have ids: "map m_request_id (fst (update_all (Update_Timeout_Timer dt) (m_attribute_request_callbacks e))) =
      map m_request_id (m_attribute_request_callbacks e)"
    by (rule update_all_request_ids)
  have "list_all (\<lambda>c. unat (m_request_id c) \<le> unat (request_id_counter e))
          (fst (update_all (Update_Timeout_Timer dt) (m_attribute_request_callbacks e))) \<longleftrightarrow>
        list_all (\<lambda>i. unat i \<le> unat (request_id_counter e))
          (map m_request_id (fst (update_all (Update_Timeout_Timer dt) (m_attribute_request_callbacks e))))"
    by (simp add: list_all_iff)
  also have "\<dots> \<longleftrightarrow> list_all (\<lambda>c. unat (m_request_id c) \<le> unat (request_id_counter e))
          (m_attribute_request_callbacks e)"
    unfolding ids by (simp add: list_all_iff)
  finally show ?thesis using assms unfolding eq by (simp add: ids_in_order_def ids)
qed

lemma step_orderly:
  fixes e :: "'w::len word engine"
  assumes "ids_in_order e" "\<not> null_pointer_returned cfg operation e"
    "\<not> counter_overflows cfg operation e"
  shows "ids_in_order (step cfg operation e)"
proof (cases operation)
  case (Request_Client h c)
  with assms Attributes_Request_orderly [of e cfg h c CLIENT_REQUEST_KEYS CLIENT_RESPONSE_KEY]
  show ?thesis
    by (simp add: Client_Attributes_Request_def counter_overflows_def)
next
  case (Request_Shared h c)
  with assms Attributes_Request_orderly [of e cfg h c SHARED_REQUEST_KEY SHARED_RESPONSE_KEY]
  show ?thesis
    by (simp add: Shared_Attributes_Request_def counter_overflows_def)
next
  case (Response topic data)
  with assms Process_Json_Response_ids [of e topic data] show ?thesis by simp
next
  case (Tick dt)
  with assms loop_ids [of e dt] show ?thesis by simp
next
  case (Unsubscribe_All r)
  then show ?thesis
    by (simp add: Unsubscribe_def Attributes_Request_Unsubscribe_def ids_in_order_def)
qed

lemma run_orderly:
  fixes e :: "'w::len word engine"
  shows "ids_in_order e \<Longrightarrow> orderly cfg operations e \<Longrightarrow> ids_in_order (run cfg operations e)"
proof (induction operations arbitrary: e)
  case Nil
  then show ?case by simp
next
  case (Cons operation operations)
  from Cons.prems have "ids_in_order (step cfg operation e)"
    by (simp add: step_orderly)
  with Cons.IH Cons.prems(2) show ?case by simp
qed

text \<open>
  The digits that \<open>decimal\<close> prints are read back by \<open>parseRequestId\<close>, so the
  response on the topic of an id finds the record with that id.
\<close>

lemma digit_value_char: "d < 10 \<Longrightarrow> digit_value (char_of (48 + d)) = Some d"
  by (simp add: digit_value_def Let_def)


lemma parse_digits_snoc:
  "list_all (\<lambda>c. digit_value c \<noteq> None) cs \<Longrightarrow> digit_value c = Some d \<Longrightarrow>
     parse_digits acc (cs @ [c]) = 10 * parse_digits acc cs + d"
  by (induction cs arbitrary: acc) auto

lemma decimal_digits: "list_all (\<lambda>c. digit_value c \<noteq> None) (decimal n)"
proof (induction n rule: decimal.induct)
  case (1 n)
  show ?case
  proof (cases "n < 10")
    case True
    then show ?thesis by (simp add: decimal.simps [of n] digit_value_char)
  next
    case False
    have "n mod 10 < 10" by simp
    from digit_value_char [OF this] 1 False show ?thesis
      by (simp add: decimal.simps [of n])
  qed
qed

lemma parse_decimal: "parse_digits 0 (decimal n) = n"
proof (induction n rule: decimal.induct)
  case (1 n)
  show ?case
  proof (cases "n < 10")
    case True
    then show ?thesis by (simp add: decimal.simps [of n] digit_value_char)
  next
    case False
    have d: "digit_value (char_of (48 + n mod 10)) = Some (n mod 10)"
      by (rule digit_value_char) simp
    from False have "decimal n = decimal (n div 10) @ [char_of (48 + n mod 10)]"
      by (simp add: decimal.simps [of n])
    then have "parse_digits 0 (decimal n) = 10 * parse_digits 0 (decimal (n div 10)) + n mod 10"
      by (simp add: parse_digits_snoc [OF decimal_digits d])
    with 1 False show ?thesis by simp
  qed
qed

lemma parseRequestId_decimal:
  "parseRequestId ATTRIBUTE_RESPONSE_TOPIC (ATTRIBUTE_RESPONSE_TOPIC @ decimal (unat i)) = i"
  by (simp add: parseRequestId_def parse_decimal)


lemma run_append: "run cfg (xs @ ys) e = run cfg ys (run cfg xs e)"
  by (induction xs arbitrary: e) simp_all

lemma answered_request_run:
  assumes "m_attribute_request_callbacks e = [a]"
    and "m_request_id a \<noteq> request_id_counter e + 1"
    and "Get_Attributes c \<noteq> []"
    and "ENABLE_DYNAMIC cfg \<or> 2 \<le> MaxSubscriptions cfg"
  shows "run cfg (answered_request c (request_id_counter e + 1)) e =
           e\<lparr>request_id_counter := request_id_counter e + 1\<rparr>"
proof -
  let ?c' = "Start_Timeout_Timer (Set_Attribute_Key (Some CLIENT_RESPONSE_KEY)
               (Set_Request_ID (request_id_counter e + 1) c))"
  let ?e1 = "\<lparr>m_attribute_request_callbacks = [a, ?c'],
              request_id_counter = request_id_counter e + 1\<rparr>"
  have issue: "fst (snd (Client_Attributes_Request cfg host_ok c e)) = ?e1"
    using assms
    by (auto simp add: Client_Attributes_Request_def Attributes_Request_def
        Attributes_Request_Subscribe_def Let_def host_ok_def)
  have found: "find_if (\<lambda>r. Get_Request_ID r =
        parseRequestId ATTRIBUTE_RESPONSE_TOPIC
          (ATTRIBUTE_RESPONSE_TOPIC @ decimal (unat (request_id_counter e + 1))))
      (m_attribute_request_callbacks ?e1) = Some 1"
    using assms(2)
    by (simp add: parseRequestId_decimal Get_Request_ID_def Start_Timeout_Timer_def
        Set_Attribute_Key_def Set_Request_ID_def)
  have "fst (Process_Json_Response
          (ATTRIBUTE_RESPONSE_TOPIC @ decimal (unat (request_id_counter e + 1))) (JObject []) ?e1) =
        \<lparr>m_attribute_request_callbacks = [a], request_id_counter = request_id_counter e + 1\<rparr>"
    unfolding Process_Json_Response_found [OF found]
    by (simp add: Helper_remove_def)
  with issue assms(1) show ?thesis
    by (simp add: answered_request_def)
qed


lemma answered_requests_run:
  fixes e :: "'w::len word engine"
  assumes "Get_Attributes c \<noteq> []" "ENABLE_DYNAMIC cfg \<or> 2 \<le> MaxSubscriptions cfg"
  shows "m_attribute_request_callbacks e = [a] \<Longrightarrow>
         (\<forall>j<n. m_request_id a \<noteq> request_id_counter e + 1 + of_nat j) \<Longrightarrow>
           run cfg (answered_requests c (request_id_counter e + 1) n) e =
             e\<lparr>request_id_counter := request_id_counter e + of_nat n\<rparr>"
proof (induction n arbitrary: e)
  case 0
  then show ?case by simp
next
  case (Suc n)
  let ?e1 = "e\<lparr>request_id_counter := request_id_counter e + 1\<rparr>"
  from Suc.prems(2) have "m_request_id a \<noteq> request_id_counter e + 1 + of_nat 0"
    by blast
  then have first: "m_request_id a \<noteq> request_id_counter e + 1"
    by simp
  have one: "run cfg (answered_request c (request_id_counter e + 1)) e = ?e1"
    by (rule answered_request_run [OF Suc.prems(1) first assms])
  have store1: "m_attribute_request_callbacks ?e1 = [a]"
    using Suc.prems(1) by simp
  have rest: "\<forall>j<n. m_request_id a \<noteq> request_id_counter ?e1 + 1 + of_nat j"
  proof (intro allI impI)
    fix j assume "j < n"
    then have "Suc j < Suc n" by simp
    with Suc.prems(2) have "m_request_id a \<noteq> request_id_counter e + 1 + of_nat (Suc j)"
      by blast
    then show "m_request_id a \<noteq> request_id_counter ?e1 + 1 + of_nat j"
      by (simp add: ac_simps)
  qed
  from Suc.IH [OF store1 rest] one show ?case
    by (simp add: run_append ac_simps)
qed


lemma answered_requests_available: "list_all request_id_available (answered_requests c i n)"
  by (induction n arbitrary: i) (simp_all add: answered_request_def host_ok_def)

lemma wrapped_counter_reuses_pending_id:
  "map m_request_id (m_attribute_request_callbacks (run (config_bounded 2) wrap_trace engine_empty))
     = [1, 1]"
proof -
  have first: "step (config_bounded 2) (Request_Client host_ok callback_ab) engine_empty
      = engine_pending_ab"
    by code_simp
  have c: "Get_Attributes callback_c \<noteq> []"
    by (simp add: Get_Attributes_def callback_c_def)
  have cfg: "ENABLE_DYNAMIC (config_bounded 2) \<or> 2 \<le> MaxSubscriptions (config_bounded 2)"
    by (simp add: config_bounded_def)
  obtain a where store: "m_attribute_request_callbacks engine_pending_ab = [a]"
    and a: "m_request_id a = 1"
    by (simp add: engine_pending_ab_def)
  have counter: "request_id_counter engine_pending_ab = 1"
    by (simp add: engine_pending_ab_def)
  have other: "\<forall>j<4294967295. m_request_id a \<noteq> request_id_counter engine_pending_ab + 1 + of_nat j"
  proof (intro allI impI)
    fix j :: nat assume j: "j < 4294967295"
    have "\<not> 2 ^ LENGTH(32) dvd Suc j"
      by (rule nat_dvd_not_less) (use j in simp_all)
    then have "(of_nat (Suc j) :: 32 word) \<noteq> 0"
      by (simp only: word_of_nat_eq_0_iff not_False_eq_True)
    then have "(1 :: 32 word) + (1 + of_nat j) \<noteq> 1"
      by simp
    then show "m_request_id a \<noteq> request_id_counter engine_pending_ab + 1 + of_nat j"
      by (simp only: a counter add.assoc)
  qed
  have "run (config_bounded 2) (answered_requests callback_c (request_id_counter engine_pending_ab + 1) 4294967295)
      engine_pending_ab
      = engine_pending_ab\<lparr>request_id_counter := request_id_counter engine_pending_ab + of_nat 4294967295\<rparr>"
    by (rule answered_requests_run [OF c cfg store other])
  then have cycles: "run (config_bounded 2) (answered_requests callback_c 2 4294967295) engine_pending_ab
      = engine_pending_ab\<lparr>request_id_counter := 0\<rparr>"
    by (simp add: counter)
  have last: "map m_request_id (m_attribute_request_callbacks
      (step (config_bounded 2) (Request_Client host_ok callback_c)
         (engine_pending_ab\<lparr>request_id_counter := 0\<rparr>))) = [1, 1]"
    by code_simp
  show ?thesis
    unfolding wrap_trace_def by (simp only: run.simps run_append first cycles last)
qed

text \<open>
  Claim C6 does not hold as stated. Two requests for which the host returns a null
  pointer for the counter both stay in the store with the request id their callbacks
  were constructed with, so two pending records share an id. And when the counter wraps
  around while a record is still pending, the id of that record is assigned again: at
  the end of \<open>wrap_trace\<close> both pending records have the id 1.
\<close>

theorem records_without_assigned_id_share_id:
  "Client_Attributes_Request config_dynamic host_null_request_id callback_ab engine_empty =
     (False, \<lparr>m_attribute_request_callbacks = [callback_ab], request_id_counter = 0\<rparr>,
      [Subscribe_Topic ''v1/devices/me/attributes/response/+'']) \<and>
   Shared_Attributes_Request config_dynamic host_null_request_id callback_c
       \<lparr>m_attribute_request_callbacks = [callback_ab], request_id_counter = 0\<rparr> =
     (False, \<lparr>m_attribute_request_callbacks = [callback_ab, callback_c], request_id_counter = 0\<rparr>,
      [Subscribe_Topic ''v1/devices/me/attributes/response/+'']) \<and>
   map m_request_id [callback_ab, callback_c] = [0, 0] \<and>
   \<not> distinct (map m_request_id (m_attribute_request_callbacks
        (run config_dynamic
           [Request_Client host_null_request_id callback_ab,
            Request_Shared host_null_request_id callback_c] engine_empty))) \<and>
   list_all request_id_available wrap_trace \<and>
   \<not> distinct (map m_request_id (m_attribute_request_callbacks
        (run (config_bounded 2) wrap_trace engine_empty)))"
proof -
  have null_pointer:
    "Client_Attributes_Request config_dynamic host_null_request_id callback_ab engine_empty =
       (False, \<lparr>m_attribute_request_callbacks = [callback_ab], request_id_counter = 0\<rparr>,
        [Subscribe_Topic ''v1/devices/me/attributes/response/+''])"
    "Shared_Attributes_Request config_dynamic host_null_request_id callback_c
         \<lparr>m_attribute_request_callbacks = [callback_ab], request_id_counter = 0\<rparr> =
       (False, \<lparr>m_attribute_request_callbacks = [callback_ab, callback_c], request_id_counter = 0\<rparr>,
        [Subscribe_Topic ''v1/devices/me/attributes/response/+''])"
    "map m_request_id [callback_ab, callback_c] = [0, 0]"
    "\<not> distinct (map m_request_id (m_attribute_request_callbacks
        (run config_dynamic
           [Request_Client host_null_request_id callback_ab,
            Request_Shared host_null_request_id callback_c] engine_empty)))"
    by code_simp+
  have available: "list_all request_id_available wrap_trace"
    by (simp add: wrap_trace_def answered_requests_available host_ok_def)
  have "\<not> distinct (map m_request_id (m_attribute_request_callbacks
        (run (config_bounded 2) wrap_trace engine_empty)))"
    by (simp add: wrapped_counter_reuses_pending_id)
  with null_pointer available show ?thesis by blast
qed

text \<open>
  Claim C6, amended. Every request that succeeds appends one record whose request id is
  the counter's value after the increment, that is the counter plus one modulo the word
  size (the id is 1 when the counter was 0), and leaves the counter at that value. And
  after any sequence of operations that starts with an empty store and in which no
  request has a null pointer returned for the counter and no request overflows the
  counter, no two pending records share a request id.
\<close>

theorem request_id_assignment_and_uniqueness:
  fixes e e0 :: "'w::len word engine"
  shows "(fst (Attributes_Request cfg h callback rk pk e) \<longrightarrow>
            m_attribute_request_callbacks (fst (snd (Attributes_Request cfg h callback rk pk e))) =
              m_attribute_request_callbacks e @
                [Start_Timeout_Timer (Set_Attribute_Key pk
                   (Set_Request_ID (request_id_counter e + 1) callback))] \<and>
            request_id_counter (fst (snd (Attributes_Request cfg h callback rk pk e))) =
              request_id_counter e + 1) \<and>
         (m_attribute_request_callbacks e0 = [] \<and> orderly cfg operations e0 \<longrightarrow>
            distinct (map m_request_id (m_attribute_request_callbacks (run cfg operations e0))))"
proof -
  have a: "fst (Attributes_Request cfg h callback rk pk e) \<longrightarrow>
            m_attribute_request_callbacks (fst (snd (Attributes_Request cfg h callback rk pk e))) =
              m_attribute_request_callbacks e @
                [Start_Timeout_Timer (Set_Attribute_Key pk
                   (Set_Request_ID (request_id_counter e + 1) callback))] \<and>
            request_id_counter (fst (snd (Attributes_Request cfg h callback rk pk e))) =
              request_id_counter e + 1"
    using Attributes_Request_cases [of cfg h callback rk pk e] by auto
  have b: "m_attribute_request_callbacks e0 = [] \<and> orderly cfg operations e0 \<longrightarrow>
            distinct (map m_request_id (m_attribute_request_callbacks (run cfg operations e0)))"
  proof (intro impI, elim conjE)
    assume e0: "m_attribute_request_callbacks e0 = []"
      and ord: "orderly cfg operations e0"
    from e0 have "ids_in_order e0" by (simp add: ids_in_order_def)
    from run_orderly [OF this ord] show
      "distinct (map m_request_id (m_attribute_request_callbacks (run cfg operations e0)))"
      by (simp add: ids_in_order_def)
  qed
  from a b show ?thesis by (rule conjI)
qed

text \<open>
  An instance: the first request from the counter at 0 gets the id 1; \<open>sample_run\<close> is
  orderly and ends with three records pending, whose ids 2, 3 and 4 are pairwise
  different.
\<close>

theorem request_id_assignment_and_uniqueness_witness:
  "fst (Attributes_Request config_dynamic host_ok callback_ab
         (Some CLIENT_REQUEST_KEYS) (Some CLIENT_RESPONSE_KEY) engine_empty) \<and>
   map m_request_id (m_attribute_request_callbacks (fst (snd (Attributes_Request config_dynamic
         host_ok callback_ab (Some CLIENT_REQUEST_KEYS) (Some CLIENT_RESPONSE_KEY) engine_empty))))
     = [1] \<and>
   request_id_counter (fst (snd (Attributes_Request config_dynamic host_ok callback_ab
         (Some CLIENT_REQUEST_KEYS) (Some CLIENT_RESPONSE_KEY) engine_empty))) = 1 \<and>
   m_attribute_request_callbacks engine_empty = [] \<and>
   orderly config_dynamic sample_run engine_empty \<and>
   map m_request_id (m_attribute_request_callbacks (run config_dynamic sample_run engine_empty))
     = [2, 3, 4] \<and>
   distinct (map m_request_id (m_attribute_request_callbacks
     (run config_dynamic sample_run engine_empty)))"
proof -
  have ok: "fst (Attributes_Request config_dynamic host_ok callback_ab
         (Some CLIENT_REQUEST_KEYS) (Some CLIENT_RESPONSE_KEY) engine_empty)"
    by code_simp
  have e: "m_attribute_request_callbacks engine_empty = []"
    "request_id_counter engine_empty = 0"
    by (simp_all add: engine_empty_def)
  have ord: "orderly config_dynamic sample_run engine_empty"
    by code_simp
  have ids: "map m_request_id (m_attribute_request_callbacks
      (run config_dynamic sample_run engine_empty)) = [2, 3, 4]"
    by code_simp
  have c: "m_request_id (Start_Timeout_Timer (Set_Attribute_Key (Some CLIENT_RESPONSE_KEY)
       (Set_Request_ID (request_id_counter engine_empty + 1) callback_ab))) = 1"
    by (simp add: Start_Timeout_Timer_def Set_Attribute_Key_def Set_Request_ID_def e)
  from request_id_assignment_and_uniqueness [where cfg = config_dynamic and h = host_ok
      and callback = callback_ab and rk = "Some CLIENT_REQUEST_KEYS"
      and pk = "Some CLIENT_RESPONSE_KEY" and e = engine_empty and ?e0.0 = engine_empty
      and operations = sample_run] ok e ord c
  have "distinct (map m_request_id (m_attribute_request_callbacks
     (run config_dynamic sample_run engine_empty)))"
    and "map m_request_id (m_attribute_request_callbacks (fst (snd (Attributes_Request
         config_dynamic host_ok callback_ab (Some CLIENT_REQUEST_KEYS)
         (Some CLIENT_RESPONSE_KEY) engine_empty)))) = [1]"
    and "request_id_counter (fst (snd (Attributes_Request config_dynamic host_ok callback_ab
         (Some CLIENT_REQUEST_KEYS) (Some CLIENT_RESPONSE_KEY) engine_empty))) = 1"
    by simp_all
  with ok e ord ids show ?thesis by simp
qed

end
